theory Spec2Isabelle
  imports Complex_Main
begin

section \<open>Severity levels and the classifier\<close>

text \<open>
  The program writes a severity as one of the three strings \<^verbatim>\<open>'LOW'\<close>,
  \<^verbatim>\<open>'MODERATE'\<close>, \<^verbatim>\<open>'HIGH'\<close>; only \<^verbatim>\<open>trafficLevel\<close> ever produces one.
\<close>

datatype severity = LOW | MODERATE | HIGH

text \<open>
  \<^verbatim>\<open>function trafficLevel(delay) {
    if (delay <= 2) return 'LOW';
    if (delay <= 10) return 'MODERATE';
    return 'HIGH';
  }\<close>
  The same text in both versions of the server. \<open>trafficLevel\<close> is the function on a
  delay that is a whole number of minutes; \<open>trafficLevelNum\<close> below is the same text
  on a delay that may also be NaN.
\<close>

definition trafficLevel :: "int \<Rightarrow> severity" where
  "trafficLevel delay =
     (if delay \<le> 2 then LOW else if delay \<le> 10 then MODERATE else HIGH)"

text \<open>
  The order of the severities as the specification words it: LOW < MODERATE < HIGH.
  \<open>severityRank\<close> and \<open>severity_le\<close> are written from the specification, to compare
  the code against.
\<close>

fun severityRank :: "severity \<Rightarrow> nat" where
  "severityRank LOW = 0"
| "severityRank MODERATE = 1"
| "severityRank HIGH = 2"

definition severity_le :: "severity \<Rightarrow> severity \<Rightarrow> bool" where
  "severity_le a b = (severityRank a \<le> severityRank b)"

section \<open>JavaScript helpers\<close>

text \<open>
  \<^verbatim>\<open>Math.round\<close> rounds to the nearest integer, a tie towards plus infinity. The
  provider sends travel times as whole seconds, so \<^verbatim>\<open>Math.round(sec / 60)\<close> is taken
  on the exact quotient.
\<close>

definition Math_round :: "rat \<Rightarrow> int" where
  "Math_round x = \<lfloor>x + 1 / 2\<rfloor>"

text \<open>
  A number of minutes as the program holds it: a whole number, or NaN. NaN is what
  \<^verbatim>\<open>Math.round(sec / 60)\<close> gives when \<^verbatim>\<open>sec\<close> is undefined, and every
  operation below passes it on as JavaScript does.
\<close>

datatype minutes = Minutes int | NaNMinutes

text \<open>\<^verbatim>\<open>Math.round(sec / 60)\<close> on a field that may be missing (\<open>None\<close>, undefined).\<close>

definition roundMinutes :: "int option \<Rightarrow> minutes" where
  "roundMinutes sec =
     (case sec of None \<Rightarrow> NaNMinutes | Some x \<Rightarrow> Minutes (Math_round (of_int x / 60)))"

text \<open>\<^verbatim>\<open>a - b\<close>: NaN as soon as one operand is NaN.\<close>

fun minutesMinus :: "minutes \<Rightarrow> minutes \<Rightarrow> minutes" where
  "minutesMinus (Minutes a) (Minutes b) = Minutes (a - b)"
| "minutesMinus _ _ = NaNMinutes"

text \<open>\<^verbatim>\<open>Math.max(0, x)\<close>: NaN when \<^verbatim>\<open>x\<close> is NaN.\<close>

fun Math_max0 :: "minutes \<Rightarrow> minutes" where
  "Math_max0 (Minutes x) = Minutes (max 0 x)"
| "Math_max0 NaNMinutes = NaNMinutes"

text \<open>\<^verbatim>\<open>x <= k\<close> and \<^verbatim>\<open>x >= k\<close>: every comparison with NaN is false.\<close>

fun lessEq :: "minutes \<Rightarrow> int \<Rightarrow> bool" where
  "lessEq (Minutes x) k = (x \<le> k)"
| "lessEq NaNMinutes k = False"


text \<open>
  \<^verbatim>\<open>trafficLevel\<close> on a delay that may be NaN: the same two comparisons, both false
  for NaN, so that the last \<^verbatim>\<open>return 'HIGH'\<close> is reached.
\<close>

definition trafficLevelNum :: "minutes \<Rightarrow> severity" where
  "trafficLevelNum delay =
     (if lessEq delay 2 then LOW else if lessEq delay 10 then MODERATE else HIGH)"

text \<open>\<^verbatim>\<open>a ?? b\<close>: the left operand unless it is null or undefined (\<open>None\<close>).\<close>

definition nullishOpt :: "'a option \<Rightarrow> 'a option \<Rightarrow> 'a option" where
  "nullishOpt a b = (case a of None \<Rightarrow> b | Some x \<Rightarrow> Some x)"

text \<open>An exception value; \<open>message\<close> is its \<^verbatim>\<open>e.message\<close>.\<close>

datatype error = Error string | TypeError string

fun message :: "error \<Rightarrow> string" where
  "message (Error m) = m"
| "message (TypeError m) = m"

text \<open>Template-literal rendering of an integer, \<^verbatim>\<open>`${n}`\<close>.\<close>

definition digitChar :: "nat \<Rightarrow> char" where
  "digitChar d = ''0123456789'' ! d"

fun showNat :: "nat \<Rightarrow> string" where
  "showNat n =
     (if n < 10 then [digitChar n]
      else showNat (n div 10) @ [digitChar (n mod 10)])"

declare showNat.simps [simp del]

definition showInt :: "int \<Rightarrow> string" where
  "showInt i = (if i < 0 then CHR ''-'' # showNat (nat (- i)) else showNat (nat i))"

text \<open>The same for a number that may be NaN: \<^verbatim>\<open>`${NaN}`\<close> is the text NaN.\<close>

fun showMinutes :: "minutes \<Rightarrow> string" where
  "showMinutes (Minutes i) = showInt i"
| "showMinutes NaNMinutes = ''NaN''"

fun showLevel :: "severity \<Rightarrow> string" where
  "showLevel LOW = ''LOW''"
| "showLevel MODERATE = ''MODERATE''"
| "showLevel HIGH = ''HIGH''"

definition quoted :: "string \<Rightarrow> string" where
  "quoted s = CHR 0x22 # s @ [CHR 0x22]"

section \<open>Configuration\<close>

text \<open>
  The coordinates are only pasted into request URLs; they are kept as the decimal text
  of the source.
\<close>

record point =
  lat :: string
  lng :: string
  label :: string

record route =
  name :: string
  logFile :: string
  origin :: point
  dest :: point

text \<open>
  A crossing of \<^verbatim>\<open>CROSSINGS\<close>. Its \<^verbatim>\<open>id\<close> and \<^verbatim>\<open>name\<close> fields are called
  \<open>cid\<close> and \<open>cname\<close> here, apart from the route's \<open>name\<close>.
\<close>

record crossing =
  cid :: string
  cname :: string
  shortName :: string
  description :: string
  routes :: "route list"

definition CROSSINGS :: "crossing list" where
  "CROSSINGS =
    [\<lparr>cid = ''metehan'', cname = ''Agios Dometios / Metehan'', shortName = ''Metehan'',
      description = ''Main Nicosia city crossing'',
      routes =
       [\<lparr>name = ''South to North'', logFile = ''log-metehan-s2n.csv'',
         origin = \<lparr>lat = ''35.17738946649458'', lng = ''33.323703790315996'', label = ''South''\<rparr>,
         dest = \<lparr>lat = ''35.18248230357691'', lng = ''33.32297160214468'', label = ''North''\<rparr>\<rparr>,
        \<lparr>name = ''North to South'', logFile = ''log-metehan-n2s.csv'',
         origin = \<lparr>lat = ''35.189972638909815'', lng = ''33.3267300933598'', label = ''North''\<rparr>,
         dest = \<lparr>lat = ''35.17997580404659'', lng = ''33.32508411149086'', label = ''South''\<rparr>\<rparr>]\<rparr>,
     \<lparr>cid = ''astromeritis'', cname = ''Astromeritis / Zodia'', shortName = ''Astromeritis'',
      description = ''West Nicosia crossing'',
      routes =
       [\<lparr>name = ''South to North'', logFile = ''log-astromeritis-s2n.csv'',
         origin = \<lparr>lat = ''35.14493622086859'', lng = ''33.03599537704171'', label = ''South''\<rparr>,
         dest = \<lparr>lat = ''35.15883484408819'', lng = ''33.01875938024711'', label = ''North''\<rparr>\<rparr>,
        \<lparr>name = ''North to South'', logFile = ''log-astromeritis-n2s.csv'',
         origin = \<lparr>lat = ''35.15883484408819'', lng = ''33.01876659029276'', label = ''North''\<rparr>,
         dest = \<lparr>lat = ''35.14498045733702'', lng = ''33.03600414981479'', label = ''South''\<rparr>\<rparr>]\<rparr>]"

section \<open>The routing provider and \<^verbatim>\<open>fetchRoute\<close>\<close>

text \<open>
  The parsed routing response, as far as the program reads it: \<^verbatim>\<open>data.routes\<close>
  (absent, or an array whose entries each may carry a \<^verbatim>\<open>summary\<close>) and
  \<^verbatim>\<open>data.detailedError.message\<close>. Each of the three travel times of a summary is a
  whole number of seconds or is missing (\<open>None\<close>); the program checks none of them. The
  route length only feeds \<^verbatim>\<open>distanceKm\<close>, a formatted floating-point number that nothing
  else in the engine reads, and is left out.
\<close>

record summary =
  travelTimeInSeconds :: "int option"
  noTrafficTravelTimeInSeconds :: "int option"
  historicTrafficTravelTimeInSeconds :: "int option"

record routeData =
  data_routes :: "summary option list option"
  detailedErrorMessage :: "string option"

record routeResult =
  trafficMin :: minutes
  normalMin :: minutes

text \<open>\<^verbatim>\<open>x || fallback\<close> on a string that may be absent: the empty string is falsy too.\<close>

definition orElse :: "string option \<Rightarrow> string \<Rightarrow> string" where
  "orElse m d = (case m of None \<Rightarrow> d | Some x \<Rightarrow> if x = [] then d else x)"

text \<open>
  \<^verbatim>\<open>fetchRoute\<close> of the crossings server. The argument is what \<^verbatim>\<open>await httpsGet(url)\<close>
  gives: the parsed response, or the rejection of the request.
  \<^verbatim>\<open>if (!data.routes?.length) throw new Error(data.detailedError?.message || 'No route');
  const s = data.routes[0].summary;
  return { trafficMin: Math.round(s.travelTimeInSeconds / 60),
           normalMin: Math.round((s.historicTrafficTravelTimeInSeconds
                        ?? s.noTrafficTravelTimeInSeconds ?? s.travelTimeInSeconds) / 60), ... };\<close>
\<close>

definition fetchRoute :: "error + routeData \<Rightarrow> error + routeResult" where
  "fetchRoute response =
     (case response of
        Inl e \<Rightarrow> Inl e
      | Inr data \<Rightarrow>
          (case data_routes data of
             None \<Rightarrow> Inl (Error (orElse (detailedErrorMessage data) ''No route''))
           | Some [] \<Rightarrow> Inl (Error (orElse (detailedErrorMessage data) ''No route''))
           | Some (None # _) \<Rightarrow> Inl (TypeError ''Cannot read properties of undefined'')
           | Some (Some s # _) \<Rightarrow>
               Inr \<lparr>trafficMin = roundMinutes (travelTimeInSeconds s),
                    normalMin = roundMinutes
                      (nullishOpt (nullishOpt (historicTrafficTravelTimeInSeconds s)
                                              (noTrafficTravelTimeInSeconds s))
                                  (travelTimeInSeconds s))\<rparr>))"

text \<open>
  \<^verbatim>\<open>fetchRoute\<close> of the two-route server (server.js):
  \<^verbatim>\<open>if (!data.routes || data.routes.length === 0)
    throw new Error(data.detailedError?.message || 'No route returned from TomTom');
  const trafficSec  = summary.travelTimeInSeconds;
  const normalSec   = summary.noTrafficTravelTimeInSeconds ?? summary.travelTimeInSeconds;
  const freeFlowSec = summary.historicTrafficTravelTimeInSeconds ?? normalSec;
  return { trafficMin: Math.round(trafficSec / 60), normalMin: Math.round(freeFlowSec / 60), ... };\<close>
\<close>

definition fetchRoute_v2 :: "error + routeData \<Rightarrow> error + routeResult" where
  "fetchRoute_v2 response =
     (case response of
        Inl e \<Rightarrow> Inl e
      | Inr data \<Rightarrow>
          (case data_routes data of
             None \<Rightarrow> Inl (Error (orElse (detailedErrorMessage data) ''No route returned from TomTom''))
           | Some [] \<Rightarrow> Inl (Error (orElse (detailedErrorMessage data) ''No route returned from TomTom''))
           | Some (None # _) \<Rightarrow> Inl (TypeError ''Cannot read properties of undefined'')
           | Some (Some summary # _) \<Rightarrow>
               (let trafficSec = travelTimeInSeconds summary;
                    normalSec = nullishOpt (noTrafficTravelTimeInSeconds summary)
                                           (travelTimeInSeconds summary);
                    freeFlowSec = nullishOpt (historicTrafficTravelTimeInSeconds summary) normalSec
                in Inr \<lparr>trafficMin = roundMinutes trafficSec,
                        normalMin = roundMinutes freeFlowSec\<rparr>)))"

section \<open>JavaScript numbers and \<^verbatim>\<open>fetchSpeed\<close>\<close>

text \<open>
  \<^verbatim>\<open>fetchSpeed\<close> divides and multiplies numbers of the provider, so it needs the
  numbers of the language as they are: IEEE 754 doubles. A double is a finite value (a
  rational), one of the two zeros, an infinity or NaN; \<open>Finite 0\<close> is the positive zero.
\<close>

datatype jsnum = Finite rat | NegZero | PosInfinity | NegInfinity | NaN

fun negative :: "jsnum \<Rightarrow> bool" where
  "negative (Finite x) = (x < 0)"
| "negative NegZero = True"
| "negative PosInfinity = False"
| "negative NegInfinity = True"
| "negative NaN = False"

fun valueOf :: "jsnum \<Rightarrow> rat" where
  "valueOf (Finite x) = x"
| "valueOf n = 0"

definition isZero :: "jsnum \<Rightarrow> bool" where
  "isZero n = (n = Finite 0 \<or> n = NegZero)"

definition isInfinity :: "jsnum \<Rightarrow> bool" where
  "isInfinity n = (n = PosInfinity \<or> n = NegInfinity)"

text \<open>\<^verbatim>\<open>Number.isFinite\<close>: neither an infinity nor NaN.\<close>

fun isFiniteNumber :: "jsnum \<Rightarrow> bool" where
  "isFiniteNumber (Finite x) = True"
| "isFiniteNumber NegZero = True"
| "isFiniteNumber n = False"

definition signedZero :: "bool \<Rightarrow> jsnum" where
  "signedZero neg = (if neg then NegZero else Finite 0)"

definition signedInfinity :: "bool \<Rightarrow> jsnum" where
  "signedInfinity neg = (if neg then NegInfinity else PosInfinity)"

text \<open>
  \<open>ilog2 q\<close> is the exponent \<open>e\<close> with \<open>2^e \<le> q < 2^(e+1)\<close>, for the positive \<open>q\<close> that
  products and quotients of doubles can be (between \<open>2^-2200\<close> and \<open>2^2200\<close>).
\<close>

fun ilog2F :: "nat \<Rightarrow> rat \<Rightarrow> int" where
  "ilog2F 0 q = 0"
| "ilog2F (Suc k) q =
     (if 2 \<le> q then ilog2F k (q / 2) + 1
      else if q < 1 then ilog2F k (q * 2) - 1
      else 0)"

definition ilog2 :: "rat \<Rightarrow> int" where
  "ilog2 q = ilog2F 2200 q"

definition pow2 :: "int \<Rightarrow> rat" where
  "pow2 e = (if 0 \<le> e then 2 ^ nat e else 1 / 2 ^ nat (- e))"

definition roundHalfEven :: "rat \<Rightarrow> int" where
  "roundHalfEven x =
     (let f = \<lfloor>x\<rfloor>; d = x - of_int f
      in if d < 1 / 2 then f else if 1 / 2 < d then f + 1 else if even f then f else f + 1)"

text \<open>
  The double an exact nonzero result \<open>q\<close> is rounded to: the nearest multiple of the
  spacing of doubles at \<open>q\<close> (53 significant bits; below \<open>2^-1022\<close> the spacing stays
  \<open>2^-1074\<close>), a tie to the even one; \<open>2^1024\<close> and beyond is an infinity, and what
  rounds to nothing is a zero of the sign of \<open>q\<close>.
\<close>

definition toDouble :: "rat \<Rightarrow> jsnum" where
  "toDouble q =
     (let e = max (ilog2 \<bar>q\<bar>) (- 1022);
          quantum = pow2 (e - 52);
          r = of_int (roundHalfEven (q / quantum)) * quantum
      in if 2 ^ 1024 \<le> \<bar>r\<bar> then signedInfinity (q < 0)
         else if r = 0 then signedZero (q < 0)
         else Finite r)"

text \<open>The operators \<^verbatim>\<open>a / b\<close> and \<^verbatim>\<open>a * b\<close> on numbers.\<close>

definition numDivide :: "jsnum \<Rightarrow> jsnum \<Rightarrow> jsnum" where
  "numDivide a b =
     (if a = NaN \<or> b = NaN then NaN
      else if isInfinity a then (if isInfinity b then NaN else signedInfinity (negative a \<noteq> negative b))
      else if isInfinity b then signedZero (negative a \<noteq> negative b)
      else if isZero b then (if isZero a then NaN else signedInfinity (negative a \<noteq> negative b))
      else if isZero a then signedZero (negative a \<noteq> negative b)
      else toDouble (valueOf a / valueOf b))"

definition numMultiply :: "jsnum \<Rightarrow> jsnum \<Rightarrow> jsnum" where
  "numMultiply a b =
     (if a = NaN \<or> b = NaN then NaN
      else if isInfinity a \<or> isInfinity b
        then (if isZero a \<or> isZero b then NaN else signedInfinity (negative a \<noteq> negative b))
      else if isZero a \<or> isZero b then signedZero (negative a \<noteq> negative b)
      else toDouble (valueOf a * valueOf b))"

text \<open>
  \<^verbatim>\<open>Math.round\<close> on any number: NaN, the infinities and the zeros are returned as they
  are, a value from -0.5 up to 0 gives the negative zero, and every other value the
  nearest integer, a tie towards plus infinity.
\<close>

definition Math_round_num :: "jsnum \<Rightarrow> jsnum" where
  "Math_round_num n =
     (case n of
        Finite x \<Rightarrow> if - (1 / 2) \<le> x \<and> x < 0 then NegZero else Finite (of_int (Math_round x))
      | _ \<Rightarrow> n)"

text \<open>
  \<^verbatim>\<open>data.flowSegmentData\<close> of the flow response, as far as the program reads it. A
  field the provider leaves out is \<^verbatim>\<open>undefined\<close>, which the three operations above
  take as NaN. The sample \<^verbatim>\<open>fetchSpeed\<close> returns has the same two field names and
  \<^verbatim>\<open>speedPct\<close>.
\<close>

record flowSegment =
  currentSpeed :: jsnum
  freeFlowSpeed :: jsnum

record speedData =
  flowSegmentData :: "flowSegment option"

record speedSample = flowSegment +
  speedPct :: jsnum

text \<open>
  \<^verbatim>\<open>async function fetchSpeed(lat, lng) {
    try {
      const data = await httpsGet(url);
      const fd = data.flowSegmentData;
      if (!fd) return null;
      return {
        currentSpeed:  Math.round(fd.currentSpeed),
        freeFlowSpeed: Math.round(fd.freeFlowSpeed),
        speedPct:      Math.round((fd.currentSpeed / fd.freeFlowSpeed) * 100),
      };
    } catch(e) { return null; }
  }\<close>
  The argument is what \<^verbatim>\<open>await httpsGet(url)\<close> gives.
\<close>

definition fetchSpeed :: "error + speedData \<Rightarrow> speedSample option" where
  "fetchSpeed response =
     (case response of
        Inl e \<Rightarrow> None
      | Inr data \<Rightarrow>
          (case flowSegmentData data of
             None \<Rightarrow> None
           | Some fd \<Rightarrow>
               Some \<lparr>currentSpeed = Math_round_num (currentSpeed fd),
                     freeFlowSpeed = Math_round_num (freeFlowSpeed fd),
                     speedPct = Math_round_num
                       (numMultiply (numDivide (currentSpeed fd) (freeFlowSpeed fd)) (Finite 100))\<rparr>))"

section \<open>Weather\<close>

text \<open>The icons are emoji in the source; they are named here.\<close>

datatype icon = Sun | SunBehindCloud | Cloud | Fog | CloudWithRain | Snowflake
  | SunBehindRainCloud | CloudWithSnow | CloudWithLightningAndRain | Thermometer

definition weatherDescription :: "int \<Rightarrow> string" where
  "weatherDescription code =
     (if code = 0 then ''Clear sky''
      else if code \<le> 2 then ''Partly cloudy''
      else if code = 3 then ''Overcast''
      else if code \<le> 49 then ''Foggy''
      else if code \<le> 59 then ''Drizzle''
      else if code \<le> 69 then ''Rain''
      else if code \<le> 79 then ''Snow''
      else if code \<le> 82 then ''Rain showers''
      else if code \<le> 86 then ''Snow showers''
      else if code \<le> 99 then ''Thunderstorm''
      else ''Unknown'')"

definition weatherIcon :: "int \<Rightarrow> icon" where
  "weatherIcon code =
     (if code = 0 then Sun
      else if code \<le> 2 then SunBehindCloud
      else if code = 3 then Cloud
      else if code \<le> 49 then Fog
      else if code \<le> 69 then CloudWithRain
      else if code \<le> 79 then Snowflake
      else if code \<le> 82 then SunBehindRainCloud
      else if code \<le> 86 then CloudWithSnow
      else if code \<le> 99 then CloudWithLightningAndRain
      else Thermometer)"

text \<open>
  \<^verbatim>\<open>data.current\<close> of the weather response (absent when the provider sends none), and
  the snapshot the program caches. The snapshot's \<^verbatim>\<open>precipitation\<close> field is
  \<open>precipitationMm\<close> here.
\<close>

record weatherCurrent =
  temperature_2m :: rat
  precipitation :: rat
  weather_code :: int
  wind_speed_10m :: rat

record weatherData =
  current :: "weatherCurrent option"

record weatherSnapshot =
  tempC :: int
  precipitationMm :: rat
  windKmh :: int
  condition :: string
  icon :: icon

section \<open>Readings, the store and the process state\<close>

text \<open>
  The row object built in \<^verbatim>\<open>checkAll\<close>: the fields of the route result, then
  \<^verbatim>\<open>timestamp, delay, level, speed, weather\<close>.
\<close>

record reading = routeResult +
  timestamp :: string
  delay :: minutes
  level :: severity
  speed :: "speedSample option"
  weather :: "weatherSnapshot option"

text \<open>What the process printed with \<^verbatim>\<open>ok(...)\<close> and \<^verbatim>\<open>err(...)\<close>, as data.\<close>

datatype logLine =
    OkWeather weatherSnapshot
  | OkRoute string string reading
  | ErrRoute string

datatype request = WeatherRequest | RouteRequest point point | SpeedRequest string string

text \<open>
  The mutable state of the process: the global \<^verbatim>\<open>readings[ci][ri]\<close>, the files on
  disk (path to content), the weather cache with its time stamp, the console, and the
  requests sent upstream so far.
\<close>

record state =
  readings :: "reading list list list"
  files :: "string \<Rightarrow> string option"
  weatherCache :: "weatherSnapshot option"
  weatherLastFetch :: int
  console :: "logLine list"
  requests :: "request list"

section \<open>The weather cache\<close>

text \<open>
  \<^verbatim>\<open>async function fetchWeather() {
    if (weatherCache && Date.now() - weatherLastFetch < 10 * 60 * 1000) return weatherCache;
    try {
      const data = await httpsGet(url);
      const c = data.current;
      weatherCache = { tempC: Math.round(c.temperature_2m), ... };
      weatherLastFetch = Date.now();
      return weatherCache;
    } catch(e) { return null; }
  }\<close>
  \<open>now\<close> is the clock (milliseconds) at the test of the cache, \<open>response\<close> what the
  request would give, \<open>now'\<close> the clock when the answer is stored.
\<close>

definition fetchWeather ::
  "int \<Rightarrow> error + weatherData \<Rightarrow> int \<Rightarrow> state \<Rightarrow> weatherSnapshot option \<times> state" where
  "fetchWeather now response now' s =
     (if weatherCache s \<noteq> None \<and> now - weatherLastFetch s < 10 * 60 * 1000
      then (weatherCache s, s)
      else
        (let s1 = s\<lparr>requests := requests s @ [WeatherRequest]\<rparr> in
         case response of
           Inl e \<Rightarrow> (None, s1)
         | Inr data \<Rightarrow>
             (case current data of
                None \<Rightarrow> (None, s1)
              | Some c \<Rightarrow>
                  (let w = \<lparr>tempC = Math_round (temperature_2m c),
                            precipitationMm = precipitation c,
                            windKmh = Math_round (wind_speed_10m c),
                            condition = weatherDescription (weather_code c),
                            icon = weatherIcon (weather_code c)\<rparr>
                   in (Some w, s1\<lparr>weatherCache := Some w, weatherLastFetch := now'\<rparr>)))))"

section \<open>The durable log\<close>

definition csvHeader :: string where
  "csvHeader = ''timestamp,crossing,route,traffic_min,normal_min,delay_min,traffic_level'' @ [CHR 0x0A]"

text \<open>
  \<^verbatim>\<open>fs.writeFileSync\<close> and \<^verbatim>\<open>fs.appendFileSync\<close>. The first argument is what the
  disk does with this call: \<open>None\<close> when the write goes through, the exception otherwise.
\<close>

definition writeFileSync ::
  "error option \<Rightarrow> string \<Rightarrow> string \<Rightarrow> (string \<Rightarrow> string option) \<Rightarrow> error + (string \<Rightarrow> string option)" where
  "writeFileSync disk path content fs =
     (case disk of Some e \<Rightarrow> Inl e | None \<Rightarrow> Inr (fs(path \<mapsto> content)))"

definition appendFileSync ::
  "error option \<Rightarrow> string \<Rightarrow> string \<Rightarrow> (string \<Rightarrow> string option) \<Rightarrow> error + (string \<Rightarrow> string option)" where
  "appendFileSync disk path content fs =
     (case disk of
        Some e \<Rightarrow> Inl e
      | None \<Rightarrow> Inr (fs(path \<mapsto> (case fs path of None \<Rightarrow> content | Some old \<Rightarrow> old @ content))))"

text \<open>
  \<^verbatim>\<open>function ensureCsv() {
    CROSSINGS.forEach(c => c.routes.forEach(r => {
      if (!fs.existsSync(r.logFile))
        fs.writeFileSync(r.logFile, 'timestamp,crossing,...,traffic_level\n');
    }));
  }\<close>
  An exception of a write ends the walk; the files written before it stay.
\<close>

fun ensureCsvLoop ::
  "(string \<Rightarrow> error option) \<Rightarrow> route list \<Rightarrow> (string \<Rightarrow> string option)
     \<Rightarrow> (string \<Rightarrow> string option) \<times> error option" where
  "ensureCsvLoop disk [] fs = (fs, None)"
| "ensureCsvLoop disk (r # rs) fs =
     (if fs (logFile r) = None
      then (case writeFileSync (disk (logFile r)) (logFile r) csvHeader fs of
              Inl e \<Rightarrow> (fs, Some e)
            | Inr fs' \<Rightarrow> ensureCsvLoop disk rs fs')
      else ensureCsvLoop disk rs fs)"

definition ensureCsv ::
  "(string \<Rightarrow> error option) \<Rightarrow> (string \<Rightarrow> string option)
     \<Rightarrow> (string \<Rightarrow> string option) \<times> error option" where
  "ensureCsv disk fs = ensureCsvLoop disk (concat (map routes CROSSINGS)) fs"

text \<open>
  \<^verbatim>\<open>function appendCsv(ci, ri, row) {
    const c = CROSSINGS[ci], r = c.routes[ri];
    fs.appendFileSync(r.logFile,
      `"${row.timestamp}","${c.name}","${r.name}",${row.trafficMin},${row.normalMin},${row.delay},"${row.level}"\n`);
  }\<close>
\<close>

definition csvLine :: "nat \<Rightarrow> nat \<Rightarrow> reading \<Rightarrow> string" where
  "csvLine ci ri row =
     (let c = CROSSINGS ! ci; r = routes c ! ri in
      quoted (timestamp row) @ '','' @ quoted (cname c) @ '','' @ quoted (name r) @ '','' @
      showMinutes (trafficMin row) @ '','' @ showMinutes (normalMin row) @ '','' @
      showMinutes (delay row) @ '','' @ quoted (showLevel (level row)) @ [CHR 0x0A])"

definition appendCsv ::
  "error option \<Rightarrow> nat \<Rightarrow> nat \<Rightarrow> reading \<Rightarrow> (string \<Rightarrow> string option)
     \<Rightarrow> error + (string \<Rightarrow> string option)" where
  "appendCsv disk ci ri row fs =
     (let c = CROSSINGS ! ci; r = routes c ! ri in
      appendFileSync disk (logFile r) (csvLine ci ri row) fs)"

section \<open>One poll cycle\<close>

text \<open>
  \<^verbatim>\<open>readings[ci][ri].push(row);
  if (readings[ci][ri].length > 1000) readings[ci][ri].shift();\<close>
  The two-route server has the same two statements with 500. \<open>storeReading\<close> is the
  pair of statements, with the number as \<open>cap\<close>.
\<close>

definition storeReading :: "nat \<Rightarrow> 'a list \<Rightarrow> 'a \<Rightarrow> 'a list" where
  "storeReading cap arr row =
     (let arr1 = arr @ [row] in if length arr1 > cap then tl arr1 else arr1)"

text \<open>
  The row literal of \<^verbatim>\<open>checkAll\<close>:
  \<^verbatim>\<open>const delay = Math.max(0, result.trafficMin - result.normalMin);
  const level = trafficLevel(delay);
  const row = { timestamp: new Date().toISOString(), trafficMin: result.trafficMin,
                normalMin: result.normalMin, distanceKm: result.distanceKm, delay, level,
                speed: speed || null, weather: weather || null };\<close>
\<close>

definition makeRow ::
  "string \<Rightarrow> routeResult \<Rightarrow> speedSample option \<Rightarrow> weatherSnapshot option \<Rightarrow> reading" where
  "makeRow ts result speed' weather' =
     (let delay = Math_max0 (minutesMinus (trafficMin result) (normalMin result));
          level = trafficLevelNum delay
      in \<lparr>trafficMin = trafficMin result, normalMin = normalMin result,
          timestamp = ts, delay = delay, level = level,
          speed = speed', weather = weather'\<rparr>)"

text \<open>
  What the world gives to the poll of one route: the answers of the routing request and
  of the flow request, the text of \<^verbatim>\<open>new Date().toISOString()\<close>, and what the disk
  does with the append to the log.
\<close>

record routeEnv =
  routeResponse :: "error + routeData"
  speedResponse :: "error + speedData"
  isoNow :: string
  diskAppend :: "error option"

text \<open>
  The body of the \<^verbatim>\<open>try\<close> for route \<open>ri\<close> of crossing \<open>ci\<close>:
  \<^verbatim>\<open>const [result, speed] = await Promise.all([
    fetchRoute(route.origin, route.dest),
    fetchSpeed(route.origin.lat, route.origin.lng),
  ]);
  const delay = ...; const level = ...; const row = { ... };
  readings[ci][ri].push(row);
  if (readings[ci][ri].length > 1000) readings[ci][ri].shift();
  appendCsv(ci, ri, row);
  ok(`[${crossing.shortName}] ${route.name}: ...`);\<close>
  It gives the state it leaves behind and the exception it ended with, if any: what was
  done before a \<^verbatim>\<open>throw\<close> stays done. Both requests are sent before either answer
  is looked at. An index outside \<^verbatim>\<open>readings\<close> makes \<^verbatim>\<open>push\<close> a TypeError (the
  text of such a message is the engine's, and is cut short here).
\<close>

definition pollBody ::
  "weatherSnapshot option \<Rightarrow> routeEnv \<Rightarrow> nat \<Rightarrow> nat \<Rightarrow> state \<Rightarrow> state \<times> error option" where
  "pollBody weather' env ci ri s =
     (let crossing = CROSSINGS ! ci;
          route = routes crossing ! ri;
          s1 = s\<lparr>requests := requests s @
                 [RouteRequest (origin route) (dest route),
                  SpeedRequest (lat (origin route)) (lng (origin route))]\<rparr>
      in case fetchRoute (routeResponse env) of
           Inl e \<Rightarrow> (s1, Some e)
         | Inr result \<Rightarrow>
             (let row = makeRow (isoNow env) result (fetchSpeed (speedResponse env)) weather' in
              if \<not> (ci < length (readings s1) \<and> ri < length (readings s1 ! ci))
              then (s1, Some (TypeError ''Cannot read properties of undefined''))
              else
                (let s2 = s1\<lparr>readings := (readings s1)
                            [ci := (readings s1 ! ci)
                               [ri := storeReading 1000 (readings s1 ! ci ! ri) row]]\<rparr>
                 in case appendCsv (diskAppend env) ci ri row (files s2) of
                      Inl e \<Rightarrow> (s2, Some e)
                    | Inr fs' \<Rightarrow>
                        (s2\<lparr>files := fs',
                            console := console s2 @ [OkRoute (shortName crossing) (name route) row]\<rparr>,
                         None))))"

text \<open>
  \<^verbatim>\<open>try { ... } catch(e) { err(`[${crossing.shortName}] ${route.name}: ${e.message}`); }\<close>
\<close>

definition pollRoute ::
  "weatherSnapshot option \<Rightarrow> routeEnv \<Rightarrow> nat \<Rightarrow> nat \<Rightarrow> state \<Rightarrow> state" where
  "pollRoute weather' env ci ri s =
     (case pollBody weather' env ci ri s of
        (s', None) \<Rightarrow> s'
      | (s', Some e) \<Rightarrow>
          s'\<lparr>console := console s' @
                [ErrRoute (''['' @ shortName (CROSSINGS ! ci) @ ''] '' @
                           name (routes (CROSSINGS ! ci) ! ri) @ '': '' @ message e)]\<rparr>)"

text \<open>What the world gives to one cycle.\<close>

record cycleEnv =
  clockAtCheck :: int
  weatherResponse :: "error + weatherData"
  clockAtStore :: int
  routeEnvs :: "nat \<Rightarrow> nat \<Rightarrow> routeEnv"

text \<open>
  \<^verbatim>\<open>async function checkAll() {
    const weather = await fetchWeather();
    if (weather) ok(`Weather: ...`);
    for (let ci = 0; ci < CROSSINGS.length; ci++) {
      const crossing = CROSSINGS[ci];
      for (let ri = 0; ri < crossing.routes.length; ri++) { try { ... } catch(e) { ... } }
    }
  }\<close>
  A cycle is taken as a whole: the timer is assumed not to start the next one before
  this one has ended. The two-route server (server.js) has the same \<^verbatim>\<open>try\<close> and
  \<^verbatim>\<open>catch\<close> in one loop over its list of routes, without the flow and weather requests.
\<close>

definition cycleWeather :: "cycleEnv \<Rightarrow> state \<Rightarrow> weatherSnapshot option \<times> state" where
  "cycleWeather env s =
     (let (weather', s1) = fetchWeather (clockAtCheck env) (weatherResponse env) (clockAtStore env) s
      in (weather', case weather' of None \<Rightarrow> s1
                   | Some w \<Rightarrow> s1\<lparr>console := console s1 @ [OkWeather w]\<rparr>))"

definition checkAll :: "cycleEnv \<Rightarrow> state \<Rightarrow> state" where
  "checkAll env s =
     (let (weather', s1) = cycleWeather env s in
      fold (\<lambda>ci. fold (\<lambda>ri. pollRoute weather' (routeEnvs env ci ri) ci ri)
                       [0..<length (routes (CROSSINGS ! ci))])
           [0..<length CROSSINGS] s1)"

text \<open>
  The state at the start of \<^verbatim>\<open>main\<close>:
  \<^verbatim>\<open>const readings = CROSSINGS.map(c => c.routes.map(() => []));
  let weatherCache = null; let weatherLastFetch = 0;\<close>
  over the files \<open>fs\<close> that are on the disk.
\<close>

definition initialState :: "(string \<Rightarrow> string option) \<Rightarrow> state" where
  "initialState fs =
     \<lparr>readings = map (\<lambda>c. map (\<lambda>r. []) (routes c)) CROSSINGS,
      files = fs, weatherCache = None, weatherLastFetch = 0, console = [], requests = []\<rparr>"

text \<open>Cycle after cycle, as the timer fires.\<close>

definition runCycles :: "cycleEnv list \<Rightarrow> state \<Rightarrow> state" where
  "runCycles envs s = fold checkAll envs s"

section \<open>The worst level of a crossing\<close>

text \<open>\<^verbatim>\<open>arr[arr.length-1] || null\<close>\<close>

definition latest :: "'a list \<Rightarrow> 'a option" where
  "latest arr = (if arr = [] then None else Some (last arr))"

text \<open>\<^verbatim>\<open>Array.prototype.indexOf\<close>: the first index of the value, or -1.\<close>

fun indexOf :: "'a list \<Rightarrow> 'a \<Rightarrow> int" where
  "indexOf [] x = - 1"
| "indexOf (y # ys) x =
     (if y = x then 0 else (let i = indexOf ys x in if i < 0 then - 1 else i + 1))"

text \<open>\<^verbatim>\<open>arr[i]\<close> for a number \<open>i\<close>: undefined outside the array.\<close>

definition elementAt :: "'a list \<Rightarrow> int \<Rightarrow> 'a option" where
  "elementAt arr i = (if 0 \<le> i \<and> nat i < length arr then Some (arr ! nat i) else None)"

definition levels :: "severity list" where
  "levels = [LOW, MODERATE, HIGH]"

text \<open>
  In \<^verbatim>\<open>buildMainPage\<close>, for the crossing \<open>ci\<close>:
  \<^verbatim>\<open>const l0 = readings[ci][0][readings[ci][0].length-1]||null;
  const l1 = readings[ci][1][readings[ci][1].length-1]||null;
  const worst = l0&&l1 ? levels[Math.max(levels.indexOf(l0.level),levels.indexOf(l1.level))] : null;\<close>
\<close>

definition worstOf :: "reading option \<Rightarrow> reading option \<Rightarrow> severity option" where
  "worstOf l0 l1 =
     (case (l0, l1) of
        (Some r0, Some r1) \<Rightarrow> elementAt levels (max (indexOf levels (level r0)) (indexOf levels (level r1)))
      | _ \<Rightarrow> None)"

definition worst :: "state \<Rightarrow> nat \<Rightarrow> severity option" where
  "worst s ci = worstOf (latest (readings s ! ci ! 0)) (latest (readings s ! ci ! 1))"

section \<open>Notions used to state the properties\<close>

text \<open>
  The indices the two loops of \<^verbatim>\<open>checkAll\<close> visit, the log file of a route, and the
  shape \<^verbatim>\<open>readings\<close> is created with (one array per route of each crossing).
\<close>

definition validRoute :: "nat \<Rightarrow> nat \<Rightarrow> bool" where
  "validRoute ci ri = (ci < length CROSSINGS \<and> ri < length (routes (CROSSINGS ! ci)))"

definition routeIndices :: "(nat \<times> nat) list" where
  "routeIndices =
     concat (map (\<lambda>ci. map (Pair ci) [0..<length (routes (CROSSINGS ! ci))]) [0..<length CROSSINGS])"

definition logPath :: "nat \<Rightarrow> nat \<Rightarrow> string" where
  "logPath ci ri = logFile (routes (CROSSINGS ! ci) ! ri)"

definition shapeOk :: "state \<Rightarrow> bool" where
  "shapeOk s = (map length (readings s) = map (\<lambda>c. length (routes c)) CROSSINGS)"

text \<open>One iteration of the inner loop, on a pair of indices.\<close>

definition pollStep ::
  "weatherSnapshot option \<Rightarrow> (nat \<Rightarrow> nat \<Rightarrow> routeEnv) \<Rightarrow> nat \<times> nat \<Rightarrow> state \<Rightarrow> state" where
  "pollStep w E p s = pollRoute w (E (fst p) (snd p)) (fst p) (snd p) s"

text \<open>
  What the poll of one route does to that route's array, to that route's log file and
  to the console, read off \<open>pollBody\<close> and \<open>pollRoute\<close>; the lemmas below prove that
  a cycle does exactly this to every route.
\<close>

definition slotStep :: "weatherSnapshot option \<Rightarrow> routeEnv \<Rightarrow> reading list \<Rightarrow> reading list" where
  "slotStep weather' env arr =
     (case fetchRoute (routeResponse env) of
        Inl e \<Rightarrow> arr
      | Inr result \<Rightarrow> storeReading 1000 arr (makeRow (isoNow env) result (fetchSpeed (speedResponse env)) weather'))"

definition fileStep ::
  "nat \<Rightarrow> nat \<Rightarrow> weatherSnapshot option \<Rightarrow> routeEnv \<Rightarrow> string option \<Rightarrow> string option" where
  "fileStep ci ri weather' env old =
     (case fetchRoute (routeResponse env) of
        Inl e \<Rightarrow> old
      | Inr result \<Rightarrow>
          (case diskAppend env of
             Some e \<Rightarrow> old
           | None \<Rightarrow>
               (let line = csvLine ci ri (makeRow (isoNow env) result (fetchSpeed (speedResponse env)) weather')
                in Some (case old of None \<Rightarrow> line | Some content \<Rightarrow> content @ line))))"

definition pollLine :: "nat \<Rightarrow> nat \<Rightarrow> weatherSnapshot option \<Rightarrow> routeEnv \<Rightarrow> logLine" where
  "pollLine ci ri weather' env =
     (let tag = ''['' @ shortName (CROSSINGS ! ci) @ ''] '' @ name (routes (CROSSINGS ! ci) ! ri) @ '': ''
      in case fetchRoute (routeResponse env) of
           Inl e \<Rightarrow> ErrRoute (tag @ message e)
         | Inr result \<Rightarrow>
             (case diskAppend env of
                Some e \<Rightarrow> ErrRoute (tag @ message e)
              | None \<Rightarrow> OkRoute (shortName (CROSSINGS ! ci)) (name (routes (CROSSINGS ! ci) ! ri))
                          (makeRow (isoNow env) result (fetchSpeed (speedResponse env)) weather')))"

text \<open>
  Two things a poll can achieve. It produces a reading when \<^verbatim>\<open>fetchRoute\<close> returns: the
  row is then built and pushed before anything is written. Its row is logged when, after
  that, \<^verbatim>\<open>appendCsv\<close> does not throw, so that the body of the \<^verbatim>\<open>try\<close> runs to its
  end. \<open>loggedLine\<close> is the line a poll appends in the second case.
\<close>

definition readingProduced :: "routeEnv \<Rightarrow> bool" where
  "readingProduced env =
     (case fetchRoute (routeResponse env) of Inl e \<Rightarrow> False | Inr result \<Rightarrow> True)"

definition rowLogged :: "routeEnv \<Rightarrow> bool" where
  "rowLogged env =
     (case fetchRoute (routeResponse env) of Inl e \<Rightarrow> False | Inr result \<Rightarrow> diskAppend env = None)"

definition loggedLine :: "nat \<Rightarrow> nat \<Rightarrow> routeEnv \<Rightarrow> string option" where
  "loggedLine ci ri env =
     (case fetchRoute (routeResponse env) of
        Inl e \<Rightarrow> None
      | Inr result \<Rightarrow>
          (case diskAppend env of
             Some e \<Rightarrow> None
           | None \<Rightarrow> Some (csvLine ci ri (makeRow (isoNow env) result None None))))"

section \<open>Sample inputs\<close>

text \<open>
  A routing answer of 17 minutes against a historic 9 minutes, the same poll with the
  request failing, with an answer of 9 minutes against a historic 10, with the disk
  full, and with an answer whose summary has no \<^verbatim>\<open>travelTimeInSeconds\<close>; a cycle in which the first route of the first crossing meets \<open>e\<close> and every
  other route the good answer, the weather request failing; and a weather answer.
\<close>

definition sampleData :: "int \<Rightarrow> int option \<Rightarrow> int option \<Rightarrow> routeData" where
  "sampleData tt nt ht =
     \<lparr>data_routes = Some [Some \<lparr>travelTimeInSeconds = Some tt, noTrafficTravelTimeInSeconds = nt,
                                 historicTrafficTravelTimeInSeconds = ht\<rparr>],
      detailedErrorMessage = None\<rparr>"

definition okRoute :: routeEnv where
  "okRoute = \<lparr>routeResponse = Inr (sampleData 1020 (Some 560) (Some 540)), speedResponse = Inr \<lparr>flowSegmentData = None\<rparr>,
              isoNow = ''2026-02-27T09:21:00.000Z'', diskAppend = None\<rparr>"

definition failedRoute :: routeEnv where
  "failedRoute = okRoute\<lparr>routeResponse := Inl (Error ''socket hang up'')\<rparr>"


definition diskFullRoute :: routeEnv where
  "diskFullRoute = okRoute\<lparr>diskAppend := Some (Error ''ENOSPC: no space left on device'')\<rparr>"



definition sampleCycle :: "routeEnv \<Rightarrow> cycleEnv" where
  "sampleCycle e =
     \<lparr>clockAtCheck = 1000, weatherResponse = Inl (Error ''timeout''), clockAtStore = 1200,
      routeEnvs = (\<lambda>ci ri. if ci = 0 \<and> ri = 0 then e else okRoute)\<rparr>"

text \<open>
  A start with no file on a disk that takes every write, and the state after three cycles
  from there in which the first route of the first crossing meets the good answer, the
  failed request and the full disk; the same start followed by one cycle with the summary
  that has no travel time.
\<close>

definition freshStart :: state where
  "freshStart = initialState (fst (ensureCsv (\<lambda>p. None) (\<lambda>p. None)))"

definition threeCycles :: state where
  "threeCycles =
     runCycles [sampleCycle okRoute, sampleCycle failedRoute, sampleCycle diskFullRoute] freshStart"


definition sampleWeather :: weatherData where
  "sampleWeather = \<lparr>current = Some \<lparr>temperature_2m = 21, precipitation = 0, weather_code = 2,
                                     wind_speed_10m = 12\<rparr>\<rparr>"

text \<open>
  Two flow answers: 23 km/h where 40 km/h is the free flow, and a segment whose free-flow
  speed is 0.
\<close>

definition slowTraffic :: speedData where
  "slowTraffic = \<lparr>flowSegmentData = Some \<lparr>currentSpeed = Finite 23, freeFlowSpeed = Finite 40\<rparr>\<rparr>"

definition zeroFreeFlow :: speedData where
  "zeroFreeFlow = \<lparr>flowSegmentData = Some \<lparr>currentSpeed = Finite 50, freeFlowSpeed = Finite 0\<rparr>\<rparr>"


section \<open>Lemmas about one poll and one cycle\<close>

lemma shapeOk_lengths:
  assumes "shapeOk s"
  shows "length (readings s) = length CROSSINGS"
    and "ci < length CROSSINGS \<Longrightarrow> length (readings s ! ci) = length (routes (CROSSINGS ! ci))"
proof -
  from assms have eq: "map length (readings s) = map (\<lambda>c. length (routes c)) CROSSINGS"
    by (simp add: shapeOk_def)
  from eq show len: "length (readings s) = length CROSSINGS"
    by (metis length_map)
  assume ci: "ci < length CROSSINGS"
  have "map length (readings s) ! ci = map (\<lambda>c. length (routes c)) CROSSINGS ! ci"
    using eq by simp
  then show "length (readings s ! ci) = length (routes (CROSSINGS ! ci))"
    using ci len by simp
qed

lemma pollRoute_readings:
  assumes "shapeOk s" "ci < length CROSSINGS" "ri < length (routes (CROSSINGS ! ci))"
  shows "readings (pollRoute w e ci ri s) =
         (readings s)[ci := (readings s ! ci)[ri := slotStep w e (readings s ! ci ! ri)]]"
  using shapeOk_lengths[OF assms(1)] assms(2,3)
  by (simp add: pollRoute_def pollBody_def slotStep_def Let_def split: sum.splits)

lemma map_length_slot_update:
  "map length (xss[ci := (xss ! ci)[ri := v]]) = map length xss"
proof (cases "ci < length xss")
  case True
  then have "(map length xss)[ci := length (xss ! ci)] = map length xss"
    by (metis list_update_id nth_map)
  then show ?thesis by (simp add: map_update)
next
  case False
  then show ?thesis by (simp add: list_update_beyond not_less)
qed

lemma pollRoute_shapeOk: "shapeOk s \<Longrightarrow> shapeOk (pollRoute w e ci ri s)"
  by (simp add: pollRoute_def pollBody_def Let_def shapeOk_def map_length_slot_update
           split: sum.splits)

lemma pollRoute_files:
  assumes "shapeOk s" "ci < length CROSSINGS" "ri < length (routes (CROSSINGS ! ci))"
  shows "files (pollRoute w e ci ri s) =
         (files s)(logFile (routes (CROSSINGS ! ci) ! ri) :=
            fileStep ci ri w e (files s (logFile (routes (CROSSINGS ! ci) ! ri))))"
  using shapeOk_lengths[OF assms(1)] assms(2,3)
  by (auto simp add: pollRoute_def pollBody_def fileStep_def appendCsv_def appendFileSync_def Let_def
       split: sum.splits option.splits)

lemma pollRoute_weatherCache:
  "weatherCache (pollRoute w e ci ri s) = weatherCache s \<and>
   weatherLastFetch (pollRoute w e ci ri s) = weatherLastFetch s"
  by (simp add: pollRoute_def pollBody_def Let_def split: sum.splits)

lemma fold_nested:
  "fold (\<lambda>i. fold (g i) (f i)) cs s = fold (\<lambda>(i, j). g i j) (concat (map (\<lambda>i. map (Pair i) (f i)) cs)) s"
  by (induction cs arbitrary: s) (simp_all add: fold_map comp_def)

lemma routeIndices_eq: "routeIndices = [(0,0),(0,1),(1,0),(1,1)]"
  by (simp add: routeIndices_def CROSSINGS_def upt_rec)

lemma pollRoute_console:
  assumes "shapeOk s" "validRoute ci ri"
  shows "console (pollRoute w e ci ri s) = console s @ [pollLine ci ri w e]"
  using shapeOk_lengths[OF assms(1)] assms(2)
  by (auto simp add: pollRoute_def pollBody_def pollLine_def appendCsv_def appendFileSync_def
        validRoute_def Let_def split: sum.splits option.splits)

lemma nth_slot_update:
  assumes "a < length xss" "b < length (xss ! a)"
  shows "xss[a := (xss ! a)[b := v]] ! ci ! ri = (if a = ci \<and> b = ri then v else xss ! ci ! ri)"
  using assms by (cases "a = ci") (auto simp: nth_list_update)

lemma fold_pollStep_shapeOk: "shapeOk s \<Longrightarrow> shapeOk (fold (pollStep w E) ps s)"
  by (induction ps arbitrary: s) (simp_all add: pollStep_def pollRoute_shapeOk)

lemma fold_pollStep_readings:
  assumes "shapeOk s" "\<forall>p\<in>set ps. validRoute (fst p) (snd p)" "distinct ps"
  shows "readings (fold (pollStep w E) ps s) ! ci ! ri =
         (if (ci, ri) \<in> set ps then slotStep w (E ci ri) (readings s ! ci ! ri)
          else readings s ! ci ! ri)"
  using assms
proof (induction ps arbitrary: s)
  case Nil
  then show ?case by simp
next
  case (Cons p ps)
  obtain a b where p: "p = (a, b)" by (cases p)
  let ?s' = "pollStep w E p s"
  from Cons.prems have v: "validRoute a b" and sh: "shapeOk s" by (simp_all add: p)
  have sh': "shapeOk ?s'" using sh by (simp add: pollStep_def pollRoute_shapeOk)
  have a: "a < length (readings s)" and b: "b < length (readings s ! a)"
    using v shapeOk_lengths[OF sh] by (simp_all add: validRoute_def)
  have r': "readings ?s' ! ci ! ri =
            (if a = ci \<and> b = ri then slotStep w (E a b) (readings s ! a ! b) else readings s ! ci ! ri)"
    using v sh by (simp add: pollStep_def p pollRoute_readings validRoute_def nth_slot_update[OF a b])
  have "readings (fold (pollStep w E) ps ?s') ! ci ! ri =
        (if (ci, ri) \<in> set ps then slotStep w (E ci ri) (readings ?s' ! ci ! ri)
         else readings ?s' ! ci ! ri)"
    using Cons.prems by (intro Cons.IH[OF sh']) simp_all
  then show ?case
    using Cons.prems(3) r' by (auto simp add: p)
qed

lemma fold_pollStep_console:
  assumes "shapeOk s" "\<forall>p\<in>set ps. validRoute (fst p) (snd p)"
  shows "console (fold (pollStep w E) ps s) =
         console s @ map (\<lambda>p. pollLine (fst p) (snd p) w (E (fst p) (snd p))) ps"
  using assms
proof (induction ps arbitrary: s)
  case Nil
  then show ?case by simp
next
  case (Cons p ps)
  then show ?case
    by (simp add: pollStep_def pollRoute_shapeOk pollRoute_console)
qed

lemma logPath_inj:
  assumes "validRoute a b" "validRoute c d" "logPath a b = logPath c d"
  shows "a = c \<and> b = d"
proof -
  have av: "a = 0 \<or> a = 1" using assms(1) by (auto simp: validRoute_def CROSSINGS_def)
  have cv: "c = 0 \<or> c = 1" using assms(2) by (auto simp: validRoute_def CROSSINGS_def)
  have bv: "b = 0 \<or> b = 1" using assms(1) av by (auto simp: validRoute_def CROSSINGS_def)
  have dv: "d = 0 \<or> d = 1" using assms(2) cv by (auto simp: validRoute_def CROSSINGS_def)
  show ?thesis
    using av bv cv dv assms(3) by (auto simp: logPath_def CROSSINGS_def)
qed

lemma fold_pollStep_files:
  assumes "shapeOk s" "\<forall>p\<in>set ps. validRoute (fst p) (snd p)" "distinct ps" "validRoute ci ri"
  shows "files (fold (pollStep w E) ps s) (logPath ci ri) =
         (if (ci, ri) \<in> set ps then fileStep ci ri w (E ci ri) (files s (logPath ci ri))
          else files s (logPath ci ri))"
  using assms
proof (induction ps arbitrary: s)
  case Nil
  then show ?case by simp
next
  case (Cons p ps)
  obtain a b where p: "p = (a, b)" by (cases p)
  let ?s' = "pollStep w E p s"
  from Cons.prems have v: "validRoute a b" and sh: "shapeOk s" by (simp_all add: p)
  have sh': "shapeOk ?s'" using sh by (simp add: pollStep_def pollRoute_shapeOk)
  have f': "files ?s' (logPath ci ri) =
            (if a = ci \<and> b = ri then fileStep a b w (E a b) (files s (logPath a b))
             else files s (logPath ci ri))"
    using v sh logPath_inj[OF v Cons.prems(4)]
    by (auto simp add: pollStep_def p pollRoute_files validRoute_def logPath_def)
  have "files (fold (pollStep w E) ps ?s') (logPath ci ri) =
        (if (ci, ri) \<in> set ps then fileStep ci ri w (E ci ri) (files ?s' (logPath ci ri))
         else files ?s' (logPath ci ri))"
    using Cons.prems by (intro Cons.IH[OF sh']) simp_all
  then show ?case
    using Cons.prems(3) f' by (auto simp add: p)
qed

lemma checkAll_unfold:
  "checkAll env s = fold (pollStep (fst (cycleWeather env s)) (routeEnvs env)) routeIndices (snd (cycleWeather env s))"
  by (simp add: checkAll_def routeIndices_def fold_nested pollStep_def[abs_def] split_def Let_def)

lemma cycleWeather_frame:
  "readings (snd (cycleWeather env s)) = readings s \<and> files (snd (cycleWeather env s)) = files s"
  by (simp add: cycleWeather_def fetchWeather_def Let_def split: sum.splits option.splits)

lemma cycleWeather_shapeOk: "shapeOk (snd (cycleWeather env s)) = shapeOk s"
  by (simp add: shapeOk_def cycleWeather_frame)

lemma set_routeIndices: "(ci, ri) \<in> set routeIndices \<longleftrightarrow> validRoute ci ri"
  by (force simp add: routeIndices_def validRoute_def)

lemma routeIndices_valid: "\<forall>p\<in>set routeIndices. validRoute (fst p) (snd p)"
  using set_routeIndices by auto

lemma distinct_routeIndices: "distinct routeIndices"
  by (simp add: routeIndices_eq)

lemma checkAll_shapeOk: "shapeOk s \<Longrightarrow> shapeOk (checkAll env s)"
  by (simp add: checkAll_unfold fold_pollStep_shapeOk cycleWeather_shapeOk)

lemma checkAll_readings:
  assumes "shapeOk s" "validRoute ci ri"
  shows "readings (checkAll env s) ! ci ! ri =
         slotStep (fst (cycleWeather env s)) (routeEnvs env ci ri) (readings s ! ci ! ri)"
  using assms
  by (simp add: checkAll_unfold fold_pollStep_readings cycleWeather_shapeOk routeIndices_valid
        distinct_routeIndices set_routeIndices cycleWeather_frame)

lemma checkAll_files:
  assumes "shapeOk s" "validRoute ci ri"
  shows "files (checkAll env s) (logPath ci ri) =
         fileStep ci ri (fst (cycleWeather env s)) (routeEnvs env ci ri) (files s (logPath ci ri))"
  using assms
  by (simp add: checkAll_unfold fold_pollStep_files cycleWeather_shapeOk routeIndices_valid
        distinct_routeIndices set_routeIndices cycleWeather_frame)

lemma checkAll_console:
  assumes "shapeOk s"
  shows "console (checkAll env s) =
         console (snd (cycleWeather env s)) @
         map (\<lambda>p. pollLine (fst p) (snd p) (fst (cycleWeather env s)) (routeEnvs env (fst p) (snd p)))
             routeIndices"
  using assms
  by (simp add: checkAll_unfold fold_pollStep_console cycleWeather_shapeOk routeIndices_valid)

lemma initialState_shapeOk: "shapeOk (initialState fs)"
  by (simp add: shapeOk_def initialState_def comp_def)

lemma initialState_readings: "validRoute ci ri \<Longrightarrow> readings (initialState fs) ! ci ! ri = []"
  by (simp add: initialState_def validRoute_def)

lemma runCycles_shapeOk: "shapeOk s \<Longrightarrow> shapeOk (runCycles envs s)"
  unfolding runCycles_def by (induction envs arbitrary: s) (simp_all add: checkAll_shapeOk)

lemma runCycles_slot_invariant:
  assumes "shapeOk s" "validRoute ci ri" "Q (readings s ! ci ! ri)"
    and step: "\<And>w e arr. Q arr \<Longrightarrow> Q (slotStep w e arr)"
  shows "Q (readings (runCycles envs s) ! ci ! ri)"
  using assms(1,3) unfolding runCycles_def
proof (induction envs arbitrary: s)
  case Nil
  then show ?case by simp
next
  case (Cons env envs)
  have "Q (readings (checkAll env s) ! ci ! ri)"
    using Cons.prems assms(2) by (simp add: checkAll_readings step)
  then show ?case
    using Cons.prems(1) by (simp add: Cons.IH checkAll_shapeOk)
qed

lemma csvLine_makeRow:
  "csvLine ci ri (makeRow ts result sp w) = csvLine ci ri (makeRow ts result None None)"
  by (simp add: csvLine_def makeRow_def Let_def)

lemma fileStep_Some:
  "fileStep ci ri w e (Some c) =
   Some (c @ (case loggedLine ci ri e of None \<Rightarrow> [] | Some l \<Rightarrow> l))"
  by (simp add: fileStep_def loggedLine_def csvLine_makeRow[of ci ri _ _ "fetchSpeed (speedResponse e)" w]
        split: sum.splits option.splits)

lemma runCycles_files:
  assumes "shapeOk s" "validRoute ci ri" "files s (logPath ci ri) = Some c"
  shows "files (runCycles envs s) (logPath ci ri) =
         Some (c @ concat (List.map_filter (\<lambda>env. loggedLine ci ri (routeEnvs env ci ri)) envs))"
  using assms(1,3) unfolding runCycles_def
proof (induction envs arbitrary: s c)
  case Nil
  then show ?case by simp
next
  case (Cons env envs)
  let ?l = "case loggedLine ci ri (routeEnvs env ci ri) of None \<Rightarrow> [] | Some l \<Rightarrow> l"
  have f: "files (checkAll env s) (logPath ci ri) = Some (c @ ?l)"
    using Cons.prems assms(2) by (simp add: checkAll_files fileStep_Some)
  have "files (fold checkAll envs (checkAll env s)) (logPath ci ri) =
        Some ((c @ ?l) @ concat (List.map_filter (\<lambda>env. loggedLine ci ri (routeEnvs env ci ri)) envs))"
    using Cons.prems(1) by (intro Cons.IH checkAll_shapeOk f)
  then show ?case
    by (simp split: option.splits)
qed

lemma Math_round_div60: "Math_round (of_int n / 60) = (n + 30) div 60"
proof -
  have "(of_int n / 60 + 1 / 2 :: rat) = of_int (n + 30) / of_int 60"
    by (simp add: field_simps)
  then show ?thesis
    unfolding Math_round_def by (simp only: floor_divide_of_int_eq)
qed

lemma latest_storeReading: "0 < cap \<Longrightarrow> latest (storeReading cap arr row) = Some row"
  by (cases arr) (simp_all add: storeReading_def latest_def Let_def)

lemma length_storeReading: "length arr \<le> cap \<Longrightarrow> length (storeReading cap arr row) \<le> cap"
  by (simp add: storeReading_def Let_def)

lemma storeReading_drop:
  assumes "length arr \<le> cap"
  shows "storeReading cap arr row = drop (length arr + 1 - cap) (arr @ [row])"
proof (cases "length arr = cap")
  case True
  have "storeReading cap arr row = tl (arr @ [row])"
    using True by (simp add: storeReading_def)
  moreover have "drop (Suc 0) (arr @ [row]) = tl (arr @ [row])"
    by (simp only: drop_Suc drop_0)
  moreover have "length arr + 1 - cap = Suc 0"
    using True by simp
  ultimately show ?thesis by simp
next
  case False
  then show ?thesis using assms by (simp add: storeReading_def)
qed

lemma fold_storeReading:
  "length arr \<le> cap \<Longrightarrow>
   fold (\<lambda>row a. storeReading cap a row) rows arr = drop (length arr + length rows - cap) (arr @ rows)"
proof (induction rows arbitrary: arr)
  case Nil
  then show ?case by simp
next
  case (Cons r rows)
  let ?k = "length arr + 1 - cap"
  let ?a = "storeReading cap arr r"
  have a: "?a = drop ?k (arr @ [r])"
    using Cons.prems by (rule storeReading_drop)
  have k: "?k \<le> length (arr @ [r])" by simp
  have la: "length ?a = length arr + 1 - ?k"
    by (simp add: a)
  have "fold (\<lambda>row a. storeReading cap a row) rows ?a =
        drop (length ?a + length rows - cap) (?a @ rows)"
    using Cons.prems by (intro Cons.IH length_storeReading)
  also have "?a @ rows = drop ?k ((arr @ [r]) @ rows)"
    using k by (simp only: a drop_append) simp
  also have "drop (length ?a + length rows - cap) (drop ?k ((arr @ [r]) @ rows)) =
             drop (length ?a + length rows - cap + ?k) ((arr @ [r]) @ rows)"
    by (simp only: drop_drop)
  also have "length ?a + length rows - cap + ?k = length arr + length (r # rows) - cap"
    using Cons.prems by (simp add: la)
  finally show ?case by simp
qed

lemma Math_round_of_int: "Math_round (of_int n) = n"
  unfolding Math_round_def by (rule floor_unique) simp_all

lemma Math_round_numeral: "Math_round (numeral k) = numeral k"
  using Math_round_of_int[of "numeral k"] by simp



lemma validRoute_0_0: "validRoute 0 0"
  by (simp add: validRoute_def CROSSINGS_def)

lemma validRoute_0_1: "validRoute 0 1"
  by (simp add: validRoute_def CROSSINGS_def)

lemma fetchRoute_okRoute:
  "fetchRoute (routeResponse okRoute) = Inr \<lparr>trafficMin = Minutes 17, normalMin = Minutes 9\<rparr>"
  by (simp add: okRoute_def sampleData_def fetchRoute_def roundMinutes_def Math_round_numeral
        nullishOpt_def)

lemma errLine_in_console:
  assumes "shapeOk s" "validRoute ci ri"
  shows "pollLine ci ri (fst (cycleWeather env s)) (routeEnvs env ci ri) \<in> set (console (checkAll env s))"
proof -
  have "(ci, ri) \<in> set routeIndices" using assms(2) by (simp add: set_routeIndices)
  then have "pollLine (fst (ci, ri)) (snd (ci, ri)) (fst (cycleWeather env s)) (routeEnvs env (fst (ci, ri)) (snd (ci, ri)))
             \<in> (\<lambda>p. pollLine (fst p) (snd p) (fst (cycleWeather env s)) (routeEnvs env (fst p) (snd p))) ` set routeIndices"
    by (rule imageI)
  then show ?thesis
    by (simp add: checkAll_console[OF assms(1)])
qed

lemma fetchRoute_failedRoute: "fetchRoute (routeResponse failedRoute) = Inl (Error ''socket hang up'')"
  by (simp add: failedRoute_def fetchRoute_def)

lemma sampleCycle_envs:
  "routeEnvs (sampleCycle e) 0 0 = e" "routeEnvs (sampleCycle e) 0 1 = okRoute"
  "routeEnvs (sampleCycle e) 0 (Suc 0) = okRoute"
  by (simp_all add: sampleCycle_def)

lemma nullish_chain:
  "nullishOpt (nullishOpt h n) t =
     (case h of Some x \<Rightarrow> Some x | None \<Rightarrow> (case n of Some y \<Rightarrow> Some y | None \<Rightarrow> t))"
  "nullishOpt h (nullishOpt n t) =
     (case h of Some x \<Rightarrow> Some x | None \<Rightarrow> (case n of Some y \<Rightarrow> Some y | None \<Rightarrow> t))"
  by (simp_all add: nullishOpt_def split: option.splits)



lemma makeRow_fields:
  "trafficMin (makeRow ts result sp w) = trafficMin result"
  "normalMin (makeRow ts result sp w) = normalMin result"
  "delay (makeRow ts result sp w) = Math_max0 (minutesMinus (trafficMin result) (normalMin result))"
  "level (makeRow ts result sp w) =
     trafficLevelNum (Math_max0 (minutesMinus (trafficMin result) (normalMin result)))"
  by (simp_all add: makeRow_def Let_def)

lemma ensureCsvLoop_created:
  "snd (ensureCsvLoop disk rs fs) = None \<Longrightarrow>
   fst (ensureCsvLoop disk rs fs) p =
     (if p \<in> logFile ` set rs \<and> fs p = None then Some csvHeader else fs p)"
proof (induction rs arbitrary: fs)
  case Nil
  then show ?case by simp
next
  case (Cons r rs)
  show ?case
  proof (cases "fs (logFile r) = None")
    case True
    show ?thesis
    proof (cases "disk (logFile r)")
      case None
      let ?fs' = "fs(logFile r \<mapsto> csvHeader)"
      have loop: "ensureCsvLoop disk (r # rs) fs = ensureCsvLoop disk rs ?fs'"
        using True None by (simp add: writeFileSync_def)
      then have "snd (ensureCsvLoop disk rs ?fs') = None" using Cons.prems by simp
      then have "fst (ensureCsvLoop disk rs ?fs') p =
                 (if p \<in> logFile ` set rs \<and> ?fs' p = None then Some csvHeader else ?fs' p)"
        by (rule Cons.IH)
      then show ?thesis unfolding loop using True by auto
    next
      case (Some e)
      then show ?thesis using True Cons.prems by (simp add: writeFileSync_def)
    qed
  next
    case False
    then have loop: "ensureCsvLoop disk (r # rs) fs = ensureCsvLoop disk rs fs" by auto
    then have "snd (ensureCsvLoop disk rs fs) = None" using Cons.prems by simp
    then have "fst (ensureCsvLoop disk rs fs) p =
               (if p \<in> logFile ` set rs \<and> fs p = None then Some csvHeader else fs p)"
      by (rule Cons.IH)
    then show ?thesis unfolding loop using False by auto
  qed
qed

lemma ensureCsvLoop_keeps:
  "fs p = Some c \<Longrightarrow> fst (ensureCsvLoop disk rs fs) p = Some c"
proof (induction rs arbitrary: fs)
  case Nil
  then show ?case by simp
next
  case (Cons r rs)
  show ?case
  proof (cases "fs (logFile r) = None \<and> disk (logFile r) = None")
    case True
    then have "p \<noteq> logFile r" using Cons.prems by auto
    then have "(fs(logFile r \<mapsto> csvHeader)) p = Some c" using Cons.prems by simp
    then have "fst (ensureCsvLoop disk rs (fs(logFile r \<mapsto> csvHeader))) p = Some c"
      by (rule Cons.IH)
    then show ?thesis using True by (simp add: writeFileSync_def)
  next
    case False
    then show ?thesis
      using Cons.IH[of fs] Cons.prems
      by (cases "disk (logFile r)") (auto simp add: writeFileSync_def)
  qed
qed

lemma logPath_in_config:
  assumes "validRoute ci ri"
  shows "logPath ci ri \<in> logFile ` set (concat (map routes CROSSINGS))"
proof -
  have c: "CROSSINGS ! ci \<in> set CROSSINGS" and r: "routes (CROSSINGS ! ci) ! ri \<in> set (routes (CROSSINGS ! ci))"
    using assms by (simp_all add: validRoute_def)
  then show ?thesis unfolding logPath_def by auto
qed

lemma ensureCsv_created:
  assumes "ensureCsv disk fs0 = (fs, None)" "validRoute ci ri"
  shows "fs (logPath ci ri) = (case fs0 (logPath ci ri) of None \<Rightarrow> Some csvHeader | Some c \<Rightarrow> Some c)"
proof -
  have "snd (ensureCsvLoop disk (concat (map routes CROSSINGS)) fs0) = None"
    and "fst (ensureCsvLoop disk (concat (map routes CROSSINGS)) fs0) = fs"
    using assms(1) by (simp_all add: ensureCsv_def)
  then show ?thesis
    using ensureCsvLoop_created[of disk "concat (map routes CROSSINGS)" fs0 "logPath ci ri"]
      logPath_in_config[OF assms(2)]
    by (auto split: option.splits)
qed

lemma pollBody_succeeds:
  assumes "shapeOk s" "validRoute ci ri"
  shows "(snd (pollBody w e ci ri s) = None) = rowLogged e"
  using shapeOk_lengths[OF assms(1)] assms(2)
  by (auto simp add: pollBody_def rowLogged_def appendCsv_def appendFileSync_def validRoute_def
        Let_def split: sum.splits option.splits)

lemma loggedLine_iff: "(loggedLine ci ri e \<noteq> None) = rowLogged e"
  by (simp add: loggedLine_def rowLogged_def split: sum.splits option.splits)

lemma length_loggedLines:
  "length (List.map_filter (\<lambda>env. loggedLine ci ri (E env)) envs) =
   length (filter (\<lambda>env. rowLogged (E env)) envs)"
  by (simp only: List.map_filter_def length_map loggedLine_iff)

lemma csvLine_not_header: "csvLine ci ri row \<noteq> csvHeader"
  by (simp add: csvLine_def csvHeader_def quoted_def Let_def)

lemma loggedLine_row: "loggedLine ci ri e = Some l \<Longrightarrow> \<exists>row. l = csvLine ci ri row"
  by (auto simp add: loggedLine_def split: sum.splits option.splits)

lemma loggedLines_rows:
  assumes "l \<in> set (List.map_filter (\<lambda>env. loggedLine ci ri (E env)) envs)"
  shows "l \<noteq> csvHeader \<and> (\<exists>row. l = csvLine ci ri row)"
proof -
  from assms obtain env where "loggedLine ci ri (E env) = Some l"
    by (auto simp add: List.map_filter_def)
  then obtain row where "l = csvLine ci ri row"
    using loggedLine_row by blast
  then show ?thesis by (auto simp add: csvLine_not_header)
qed

lemma fetchRoute_diskFullRoute:
  "fetchRoute (routeResponse diskFullRoute) = Inr \<lparr>trafficMin = Minutes 17, normalMin = Minutes 9\<rparr>"
  using fetchRoute_okRoute by (simp add: diskFullRoute_def)

lemma csvLine_sample:
  \<open>csvLine 0 0 (makeRow ''2026-02-27T09:21:00.000Z'' \<lparr>trafficMin = Minutes 17, normalMin = Minutes 9\<rparr> sp w) =
   ''"2026-02-27T09:21:00.000Z","Agios Dometios / Metehan","South to North",17,9,8,"MODERATE"'' @ [CHR 0x0A]\<close>
  by (simp add: csvLine_def makeRow_def CROSSINGS_def quoted_def showInt_def trafficLevelNum_def
        Let_def showNat.simps digitChar_def)



lemma rowLogged_readingProduced: "rowLogged e \<Longrightarrow> readingProduced e"
  by (simp add: rowLogged_def readingProduced_def split: sum.splits)

lemma rowLogged_iff: "rowLogged e = (readingProduced e \<and> diskAppend e = None)"
  by (simp add: rowLogged_def readingProduced_def split: sum.splits)

lemma length_filter_rowLogged:
  "length (filter (\<lambda>env. rowLogged (E env)) envs) \<le>
   length (filter (\<lambda>env. readingProduced (E env)) envs)"
  by (induction envs) (auto dest: rowLogged_readingProduced)

lemma filter_rowLogged_all:
  assumes "\<forall>env\<in>set envs. diskAppend (E env) = None"
  shows "filter (\<lambda>env. rowLogged (E env)) envs = filter (\<lambda>env. readingProduced (E env)) envs"
  using assms by (intro filter_cong refl) (simp add: rowLogged_iff)

lemma slotStep_readingProduced:
  "slotStep w e arr =
     (if readingProduced e
      then storeReading 1000 arr
             (makeRow (isoNow e) (projr (fetchRoute (routeResponse e))) (fetchSpeed (speedResponse e)) w)
      else arr)"
  by (simp add: slotStep_def readingProduced_def split: sum.splits)

lemma length_slotStep:
  "length arr < 1000 \<Longrightarrow>
   length (slotStep w e arr) = (if readingProduced e then length arr + 1 else length arr)"
  by (simp add: slotStep_def readingProduced_def storeReading_def Let_def split: sum.splits)

lemma freshStart_shapeOk: "shapeOk freshStart"
  by (simp add: freshStart_def initialState_shapeOk)

lemma freshStart_files:
  assumes "validRoute ci ri"
  shows "files freshStart (logPath ci ri) = Some csvHeader"
proof -
  have "snd (ensureCsv (\<lambda>p. None) (\<lambda>p. None)) = None"
    by (simp add: ensureCsv_def CROSSINGS_def writeFileSync_def)
  then have "ensureCsv (\<lambda>p. None) (\<lambda>p. None) = (fst (ensureCsv (\<lambda>p. None) (\<lambda>p. None)), None)"
    by (simp add: prod_eq_iff)
  from ensureCsv_created[OF this assms] show ?thesis
    by (simp add: freshStart_def initialState_def)
qed

lemma pollRoute_slot:
  assumes "shapeOk s" "validRoute ci ri"
  shows "readings (pollRoute w e ci ri s) ! ci ! ri = slotStep w e (readings s ! ci ! ri)"
  using assms(2) shapeOk_lengths[OF assms(1)]
  by (simp add: pollRoute_readings[OF assms(1)] validRoute_def nth_slot_update)

lemma freshStart_readings: "validRoute ci ri \<Longrightarrow> readings freshStart ! ci ! ri = []"
  by (simp add: freshStart_def initialState_readings)

lemma severity_le_order:
  "severity_le a a"
  "severity_le a b \<Longrightarrow> severity_le b c \<Longrightarrow> severity_le a c"
  "severity_le a b \<Longrightarrow> severity_le b a \<Longrightarrow> a = b"
  "severity_le a b \<or> severity_le b a"
  "severity_le LOW MODERATE" "severity_le MODERATE HIGH"
  "\<not> severity_le MODERATE LOW" "\<not> severity_le HIGH MODERATE"
  by (cases a; cases b; cases c; simp add: severity_le_def)+


section \<open>Lemmas about the numbers\<close>

text \<open>
  \<open>ilog2\<close> finds the exponent, \<open>roundHalfEven\<close> the nearest integer; the other lemmas
  evaluate the operations on numerals.
\<close>

lemma ilog2F_numeral:
  "ilog2F (numeral n) q =
     (if 2 \<le> q then ilog2F (pred_numeral n) (q / 2) + 1
      else if q < 1 then ilog2F (pred_numeral n) (q * 2) - 1
      else 0)"
  by (simp add: numeral_eq_Suc)

lemma floor_rat_numeral: "\<lfloor>numeral a / numeral b :: rat\<rfloor> = numeral a div numeral b"
  using floor_divide_of_int_eq[of "numeral a" "numeral b", where ?'a = rat] by simp

lemmas double_eval = toDouble_def ilog2_def ilog2F_numeral pow2_def roundHalfEven_def Let_def
  floor_rat_numeral signedZero_def signedInfinity_def

lemma toDouble_23_40: "toDouble (23 / 40) = Finite (5179139571476070 / 2 ^ 53)"
  by (simp add: double_eval)

lemma toDouble_times_100:
  "toDouble (5179139571476070 / 2 ^ 53 * 100) = Finite (8092405580431359 / 2 ^ 47)"
  by (simp add: double_eval)

lemma toDouble_tenth: "toDouble (1 / 10) = Finite (3602879701896397 / 2 ^ 55)"
  by (simp add: double_eval)

lemma toDouble_exact: "toDouble 23 = Finite 23" "toDouble (3 / 4) = Finite (3 / 4)" "toDouble 75 = Finite 75"
  by (simp_all add: double_eval)

lemma Math_round_num_57: "Math_round_num (Finite (8092405580431359 / 2 ^ 47)) = Finite 57"
  by (simp add: Math_round_num_def Math_round_def floor_rat_numeral)

lemma Math_round_num_numeral: "Math_round_num (Finite (numeral k)) = Finite (numeral k)"
  by (simp add: Math_round_num_def Math_round_numeral)

lemma pow2_pos: "0 < pow2 e"
  by (simp add: pow2_def)

lemma pow2_Suc: "pow2 (e + 1) = 2 * pow2 e"
proof (cases "0 \<le> e")
  case True
  then show ?thesis by (simp add: pow2_def nat_add_distrib)
next
  case False
  then have "nat (- e) = Suc (nat (- (e + 1)))" by simp
  then show ?thesis using False by (auto simp add: pow2_def)
qed

lemma pow2_pred: "pow2 (e - 1) = pow2 e / 2"
  using pow2_Suc[of "e - 1"] by simp

lemma pow2_ge_1: "0 \<le> e \<Longrightarrow> 1 \<le> pow2 e"
  by (simp add: pow2_def)

lemma pow2_le_1: "e \<le> 0 \<Longrightarrow> pow2 e \<le> 1"
  by (simp add: pow2_def)

lemma ilog2F_bounds:
  "pow2 (- int k) \<le> q \<Longrightarrow> q < pow2 (int k + 1) \<Longrightarrow>
   pow2 (ilog2F k q) \<le> q \<and> q < pow2 (ilog2F k q + 1)"
proof (induction k arbitrary: q)
  case 0
  then show ?case by (simp add: pow2_def)
next
  case (Suc k)
  show ?case
  proof (cases "2 \<le> q")
    case True
    have "pow2 (- int k) \<le> q / 2"
      using pow2_le_1[of "- int k"] True by simp
    moreover have "q / 2 < pow2 (int k + 1)"
      using Suc.prems(2) pow2_Suc[of "int k + 1"] by (simp add: add.commute)
    ultimately have "pow2 (ilog2F k (q / 2)) \<le> q / 2 \<and> q / 2 < pow2 (ilog2F k (q / 2) + 1)"
      by (rule Suc.IH)
    then show ?thesis
      using True pow2_Suc[of "ilog2F k (q / 2)"] pow2_Suc[of "ilog2F k (q / 2) + 1"]
      by (simp add: add.commute)
  next
    case False
    show ?thesis
    proof (cases "q < 1")
      case True
      have "pow2 (- int k) \<le> q * 2"
        using Suc.prems(1) pow2_Suc[of "- int (Suc k)"] by simp
      moreover have "q * 2 < pow2 (int k + 1)"
        using True pow2_ge_1[of "int k"] pow2_Suc[of "int k"] by simp
      ultimately have "pow2 (ilog2F k (q * 2)) \<le> q * 2 \<and> q * 2 < pow2 (ilog2F k (q * 2) + 1)"
        by (rule Suc.IH)
      then show ?thesis
        using True False pow2_pred[of "ilog2F k (q * 2)"] pow2_Suc[of "ilog2F k (q * 2)"]
        by simp
    next
      case False
      then show ?thesis using \<open>\<not> 2 \<le> q\<close> by (simp add: pow2_def)
    qed
  qed
qed

lemma roundHalfEven_nearest: "\<bar>x - of_int (roundHalfEven x)\<bar> \<le> \<bar>x - of_int n\<bar>"
proof -
  let ?f = "\<lfloor>x\<rfloor>"
  have f: "of_int ?f \<le> x" "x < of_int ?f + 1" by linarith+
  have r: "\<bar>x - of_int (roundHalfEven x)\<bar> \<le> 1 / 2"
    using f by (auto simp add: roundHalfEven_def Let_def)
  have r1: "roundHalfEven x = ?f \<or> roundHalfEven x = ?f + 1"
    by (auto simp add: roundHalfEven_def Let_def)
  show ?thesis
  proof (cases "n \<le> ?f")
    case True
    then have "(of_int n :: rat) \<le> of_int ?f" by simp
    then have "\<bar>x - of_int n\<bar> \<ge> x - of_int ?f" using f by linarith
    moreover have "\<bar>x - of_int (roundHalfEven x)\<bar> \<le> x - of_int ?f"
      using f by (auto simp add: roundHalfEven_def Let_def)
    ultimately show ?thesis by linarith
  next
    case False
    then have "?f + 1 \<le> n" by simp
    then have "(of_int ?f :: rat) + 1 \<le> of_int n" by (metis of_int_1 of_int_add of_int_le_iff)
    then have "\<bar>x - of_int n\<bar> \<ge> of_int ?f + 1 - x" using f by linarith
    moreover have "\<bar>x - of_int (roundHalfEven x)\<bar> \<le> of_int ?f + 1 - x"
      using f by (auto simp add: roundHalfEven_def Let_def)
    ultimately show ?thesis by linarith
  qed
qed

lemma toDouble_not_NaN: "toDouble q \<noteq> NaN"
  by (simp add: toDouble_def Let_def signedZero_def signedInfinity_def)

lemma ilog2_bounds:
  "pow2 (- 2200) \<le> q \<Longrightarrow> q < pow2 2201 \<Longrightarrow> pow2 (ilog2 q) \<le> q \<and> q < pow2 (ilog2 q + 1)"
  using ilog2F_bounds[of 2200 q] by (simp add: ilog2_def)

lemma scaled_nearest:
  fixes q u :: rat
  assumes "0 < u"
  shows "\<bar>q - of_int (roundHalfEven (q / u)) * u\<bar> \<le> \<bar>q - of_int n * u\<bar>"
proof -
  have s: "\<bar>q - of_int m * u\<bar> = \<bar>q / u - of_int m\<bar> * u" for m
  proof -
    have "q - of_int m * u = (q / u - of_int m) * u"
      using assms by (simp add: left_diff_distrib)
    then have "\<bar>q - of_int m * u\<bar> = \<bar>q / u - of_int m\<bar> * \<bar>u\<bar>"
      by (simp only: abs_mult)
    then show ?thesis using assms by simp
  qed
  have "\<bar>q / u - of_int (roundHalfEven (q / u))\<bar> \<le> \<bar>q / u - of_int n\<bar>"
    by (rule roundHalfEven_nearest)
  then have "\<bar>q / u - of_int (roundHalfEven (q / u))\<bar> * u \<le> \<bar>q / u - of_int n\<bar> * u"
    using assms by (rule mult_right_mono[OF _ less_imp_le])
  then show ?thesis by (simp only: s)
qed

lemma toDouble_Finite:
  assumes "toDouble q = Finite r"
  shows "r = of_int (roundHalfEven (q / pow2 (max (ilog2 \<bar>q\<bar>) (- 1022) - 52))) *
             pow2 (max (ilog2 \<bar>q\<bar>) (- 1022) - 52)"
proof -
  have pick: "r = x"
    if "(if B \<le> \<bar>x\<bar> then signedInfinity s else if x = 0 then signedZero s else Finite x) = Finite r"
    for B x :: rat and s
    using that by (auto simp add: signedInfinity_def signedZero_def split: if_splits)
  show ?thesis
    by (rule pick[of "2 ^ 1024" _ "q < 0"]) (simp only: toDouble_def[symmetric, unfolded Let_def] assms)
qed

lemma toDouble_nearest:
  assumes "toDouble q = Finite r"
  shows "\<bar>q - r\<bar> \<le> \<bar>q - of_int n * pow2 (max (ilog2 \<bar>q\<bar>) (- 1022) - 52)\<bar>"
  unfolding toDouble_Finite[OF assms] by (rule scaled_nearest[OF pow2_pos])

section \<open>The claims\<close>

text \<open>
  Claim C1. For every whole number of minutes \<open>d\<close>, \<open>trafficLevel d\<close> is LOW exactly when
  \<open>d \<le> 2\<close>, MODERATE exactly when \<open>3 \<le> d \<le> 10\<close> and HIGH exactly when \<open>d > 10\<close>, and
  a larger delay never gets a lower severity in the order LOW < MODERATE < HIGH.
\<close>

theorem trafficLevel_thresholds:
  "(trafficLevel d = LOW \<longleftrightarrow> d \<le> 2) \<and>
   (trafficLevel d = MODERATE \<longleftrightarrow> 3 \<le> d \<and> d \<le> 10) \<and>
   (trafficLevel d = HIGH \<longleftrightarrow> 10 < d) \<and>
   (d \<le> d' \<longrightarrow> severity_le (trafficLevel d) (trafficLevel d'))"
  by (auto simp add: trafficLevel_def severity_le_def)

theorem trafficLevel_thresholds_witness:
  "(2::int) \<le> 11 \<and> trafficLevel 2 = LOW \<and> trafficLevel 11 = HIGH \<and>
   severity_le (trafficLevel 2) (trafficLevel 11)"
  using trafficLevel_thresholds[of 2 11] trafficLevel_thresholds[of 11 11] by auto




text \<open>
  Claim C3. After any number of cycles the array of a route holds at most 1000 readings;
  the push-then-shift pair keeps an array within any capacity \<open>cap\<close> (500 in the two-route
  server); and \<open>cap + 1\<close> appends to an empty array leave exactly the entries after the
  first one, in order: the first is gone (when the rows are distinct) and the last is there.
\<close>

theorem store_bounded_fifo:
  assumes "s = runCycles envs (initialState fs)" "validRoute ci ri"
    and "0 < cap" "length rows = cap + 1"
  shows "length (readings s ! ci ! ri) \<le> 1000 \<and>
         (fetchRoute (routeResponse (routeEnvs env ci ri)) = Inr result \<longrightarrow>
            readings (checkAll env s) ! ci ! ri =
              storeReading 1000 (readings s ! ci ! ri)
                (makeRow (isoNow (routeEnvs env ci ri)) result
                   (fetchSpeed (speedResponse (routeEnvs env ci ri))) (fst (cycleWeather env s)))) \<and>
         (length arr \<le> cap \<longrightarrow> length (storeReading cap arr row) \<le> cap) \<and>
         fold (\<lambda>row a. storeReading cap a row) rows [] = tl rows \<and>
         last rows \<in> set (fold (\<lambda>row a. storeReading cap a row) rows []) \<and>
         (distinct rows \<longrightarrow> hd rows \<notin> set (fold (\<lambda>row a. storeReading cap a row) rows []))"
proof -
  let ?Q = "\<lambda>arr::reading list. length arr \<le> 1000"
  have step: "?Q (slotStep w' e a)" if "?Q a" for w' e a
    using that by (simp add: slotStep_def length_storeReading split: sum.splits)
  have "?Q (readings (runCycles envs (initialState fs)) ! ci ! ri)"
    by (rule runCycles_slot_invariant[where Q = ?Q, OF initialState_shapeOk assms(2)])
       (simp_all add: initialState_readings assms(2) step)
  then have bound: "length (readings s ! ci ! ri) \<le> 1000" using assms(1) by simp
  have "fold (\<lambda>row a. storeReading cap a row) rows [] = drop (length rows - cap) rows"
    using fold_storeReading[of "[]" cap rows] by simp
  also have "\<dots> = tl rows"
    using assms(4) by (simp add: drop_Suc)
  finally have fifo: "fold (\<lambda>row a. storeReading cap a row) rows [] = tl rows" .
  obtain x xs where rows: "rows = x # xs" using assms(4) by (cases rows) simp_all
  have xs: "xs \<noteq> []" using assms(3,4) rows by auto
  have sh: "shapeOk s"
    using assms(1) by (simp add: runCycles_shapeOk initialState_shapeOk)
  have app: "fetchRoute (routeResponse (routeEnvs env ci ri)) = Inr result \<longrightarrow>
            readings (checkAll env s) ! ci ! ri =
              storeReading 1000 (readings s ! ci ! ri)
                (makeRow (isoNow (routeEnvs env ci ri)) result
                   (fetchSpeed (speedResponse (routeEnvs env ci ri))) (fst (cycleWeather env s)))"
    by (simp add: checkAll_readings[OF sh assms(2)] slotStep_def)
  have tail: "(length arr \<le> cap \<longrightarrow> length (storeReading cap arr row) \<le> cap) \<and>
         fold (\<lambda>row a. storeReading cap a row) rows [] = tl rows \<and>
         last rows \<in> set (fold (\<lambda>row a. storeReading cap a row) rows []) \<and>
         (distinct rows \<longrightarrow> hd rows \<notin> set (fold (\<lambda>row a. storeReading cap a row) rows []))"
    using fifo xs by (simp add: rows length_storeReading)
  from bound app tail show ?thesis
    by (elim conjE) (intro conjI; assumption)
qed

theorem store_bounded_fifo_witness:
  "validRoute 0 0 \<and> 0 < (1000::nat) \<and> length [0..<1001] = 1000 + 1 \<and>
   length ([]::nat list) \<le> 1000 \<and> distinct [0..<1001] \<and>
   fetchRoute (routeResponse (routeEnvs (sampleCycle okRoute) 0 0)) =
     Inr \<lparr>trafficMin = Minutes 17, normalMin = Minutes 9\<rparr> \<and>
   length (readings (runCycles [] (initialState Map.empty)) ! 0 ! 0) \<le> 1000 \<and>
   readings (checkAll (sampleCycle okRoute) (runCycles [] (initialState Map.empty))) ! 0 ! 0 =
     storeReading 1000 (readings (runCycles [] (initialState Map.empty)) ! 0 ! 0)
       (makeRow (isoNow okRoute) \<lparr>trafficMin = Minutes 17, normalMin = Minutes 9\<rparr> None None) \<and>
   length (storeReading 1000 [] (0::nat)) \<le> 1000 \<and>
   fold (\<lambda>row a. storeReading 1000 a row) [0..<1001] [] = tl [0..<1001] \<and>
   last [0..<1001] \<in> set (fold (\<lambda>row a. storeReading 1000 a row) [0..<1001] []) \<and>
   hd [0..<1001] \<notin> set (fold (\<lambda>row a. storeReading 1000 a row) [0..<1001] [])"
proof -
  have f: "fetchRoute (routeResponse (routeEnvs (sampleCycle okRoute) 0 0)) =
             Inr \<lparr>trafficMin = Minutes 17, normalMin = Minutes 9\<rparr>"
    by (simp only: sampleCycle_envs fetchRoute_okRoute)
  have w: "fst (cycleWeather (sampleCycle okRoute) (runCycles [] (initialState Map.empty))) = None"
    by (simp add: cycleWeather_def fetchWeather_def sampleCycle_def initialState_def runCycles_def)
  have sp: "fetchSpeed (speedResponse okRoute) = None"
    by (simp add: okRoute_def fetchSpeed_def)
  from store_bounded_fifo[where envs = "[]" and fs = Map.empty and cap = 1000
          and rows = "[0..<1001]" and arr = "[]" and row = "0::nat"
          and env = "sampleCycle okRoute" and result = "\<lparr>trafficMin = Minutes 17, normalMin = Minutes 9\<rparr>",
          OF refl validRoute_0_0]
  show ?thesis
    using f validRoute_0_0 by (simp add: w sp sampleCycle_envs)
qed

text \<open>
  Claim C4. In one cycle, run in any state reached from start-up: when the routing call of
  route A fails and that of route B succeeds, the array and the log file of A are as before
  the cycle and the error of A is printed, and the array of B gains the reading built from
  B's answer, which is B's latest reading.
\<close>

theorem route_failure_isolated:
  assumes "s = runCycles envs (initialState fs)"
    and "validRoute ca ra" "validRoute cb rb"
    and "fetchRoute (routeResponse (routeEnvs env ca ra)) = Inl e"
    and "fetchRoute (routeResponse (routeEnvs env cb rb)) = Inr result"
  shows "readings (checkAll env s) ! ca ! ra = readings s ! ca ! ra \<and>
         files (checkAll env s) (logPath ca ra) = files s (logPath ca ra) \<and>
         ErrRoute (''['' @ shortName (CROSSINGS ! ca) @ ''] '' @ name (routes (CROSSINGS ! ca) ! ra) @
                   '': '' @ message e) \<in> set (console (checkAll env s)) \<and>
         readings (checkAll env s) ! cb ! rb =
           storeReading 1000 (readings s ! cb ! rb)
             (makeRow (isoNow (routeEnvs env cb rb)) result (fetchSpeed (speedResponse (routeEnvs env cb rb)))
                (fst (cycleWeather env s))) \<and>
         latest (readings (checkAll env s) ! cb ! rb) =
           Some (makeRow (isoNow (routeEnvs env cb rb)) result (fetchSpeed (speedResponse (routeEnvs env cb rb)))
                   (fst (cycleWeather env s)))"
proof -
  have sh: "shapeOk s"
    using assms(1) by (simp add: runCycles_shapeOk initialState_shapeOk)
  have a: "readings (checkAll env s) ! ca ! ra = readings s ! ca ! ra"
    by (simp add: checkAll_readings[OF sh assms(2)] slotStep_def assms(4))
  have f: "files (checkAll env s) (logPath ca ra) = files s (logPath ca ra)"
    by (simp add: checkAll_files[OF sh assms(2)] fileStep_def assms(4))
  have c: "ErrRoute (''['' @ shortName (CROSSINGS ! ca) @ ''] '' @ name (routes (CROSSINGS ! ca) ! ra) @
                   '': '' @ message e) \<in> set (console (checkAll env s))"
    using errLine_in_console[OF sh assms(2), of env] by (simp add: pollLine_def assms(4))
  have b: "readings (checkAll env s) ! cb ! rb =
           storeReading 1000 (readings s ! cb ! rb)
             (makeRow (isoNow (routeEnvs env cb rb)) result (fetchSpeed (speedResponse (routeEnvs env cb rb)))
                (fst (cycleWeather env s)))"
    by (simp add: checkAll_readings[OF sh assms(3)] slotStep_def assms(5))
  show ?thesis
    using a f c by (simp add: b latest_storeReading)
qed

theorem route_failure_isolated_witness:
  "validRoute 0 0 \<and> validRoute 0 1 \<and>
   fetchRoute (routeResponse (routeEnvs (sampleCycle failedRoute) 0 0)) = Inl (Error ''socket hang up'') \<and>
   fetchRoute (routeResponse (routeEnvs (sampleCycle failedRoute) 0 1)) = Inr \<lparr>trafficMin = Minutes 17, normalMin = Minutes 9\<rparr> \<and>
   readings (checkAll (sampleCycle failedRoute) (runCycles [] (initialState Map.empty))) ! 0 ! 0 = [] \<and>
   files (checkAll (sampleCycle failedRoute) (runCycles [] (initialState Map.empty))) ''log-metehan-s2n.csv'' = None \<and>
   ErrRoute ''[Metehan] South to North: socket hang up''
     \<in> set (console (checkAll (sampleCycle failedRoute) (runCycles [] (initialState Map.empty)))) \<and>
   latest (readings (checkAll (sampleCycle failedRoute) (runCycles [] (initialState Map.empty))) ! 0 ! 1) =
     Some (makeRow ''2026-02-27T09:21:00.000Z'' \<lparr>trafficMin = Minutes 17, normalMin = Minutes 9\<rparr> None None)"
proof -
  have a: "fetchRoute (routeResponse (routeEnvs (sampleCycle failedRoute) 0 0)) = Inl (Error ''socket hang up'')"
    by (simp add: sampleCycle_envs fetchRoute_failedRoute)
  have b: "fetchRoute (routeResponse (routeEnvs (sampleCycle failedRoute) 0 1)) = Inr \<lparr>trafficMin = Minutes 17, normalMin = Minutes 9\<rparr>"
    by (simp only: sampleCycle_envs fetchRoute_okRoute)
  have w: "fst (cycleWeather (sampleCycle failedRoute) (runCycles [] (initialState Map.empty))) = None"
    by (simp add: cycleWeather_def fetchWeather_def sampleCycle_def initialState_def runCycles_def)
  have s0: "readings (runCycles [] (initialState Map.empty)) ! 0 ! 0 = []"
    "files (runCycles [] (initialState Map.empty)) p = None"
    "readings (runCycles [] (initialState Map.empty)) ! 0 ! Suc 0 = []" for p
    using initialState_readings[OF validRoute_0_1]
    by (simp_all add: runCycles_def initialState_readings[OF validRoute_0_0]) (simp add: initialState_def)
  have names: "logPath 0 0 = ''log-metehan-s2n.csv''" "shortName (CROSSINGS ! 0) = ''Metehan''"
    "name (routes (CROSSINGS ! 0) ! 0) = ''South to North''"
    by (simp_all add: logPath_def CROSSINGS_def)
  have ok: "isoNow okRoute = ''2026-02-27T09:21:00.000Z''" "fetchSpeed (speedResponse okRoute) = None"
    by (simp_all add: okRoute_def fetchSpeed_def)
  from route_failure_isolated[where envs = "[]" and fs = Map.empty, OF refl validRoute_0_0 validRoute_0_1 a b]
  show ?thesis
    using a b validRoute_0_0 validRoute_0_1
    by (simp add: s0 names w sampleCycle_envs ok latest_def storeReading_def)
qed

text \<open>
  Claim C5. For a response with a route summary, both versions of \<open>fetchRoute\<close> return a
  result (they do not fail) whose baseline minutes come from the historic field if present,
  else from the no-traffic field, else from the travel time itself; with both baseline
  fields absent the baseline equals the current minutes and, the travel time being a
  number \<open>tt\<close>, the delay is 0.
\<close>

theorem baseline_fallback_chain:
  assumes "data_routes data = Some (Some s # rest)"
  shows "\<exists>r. fetchRoute (Inr data) = Inr r \<and> fetchRoute_v2 (Inr data) = Inr r \<and>
             trafficMin r = roundMinutes (travelTimeInSeconds s) \<and>
             normalMin r = roundMinutes
               (case historicTrafficTravelTimeInSeconds s of
                  Some h \<Rightarrow> Some h
                | None \<Rightarrow> (case noTrafficTravelTimeInSeconds s of
                             Some n \<Rightarrow> Some n
                           | None \<Rightarrow> travelTimeInSeconds s)) \<and>
             (historicTrafficTravelTimeInSeconds s = None \<and> noTrafficTravelTimeInSeconds s = None
                \<longrightarrow> normalMin r = trafficMin r) \<and>
             (travelTimeInSeconds s = Some tt \<longrightarrow>
                trafficMin r = Minutes (Math_round (of_int tt / 60)) \<and>
                normalMin r = Minutes (Math_round (of_int
                  (case historicTrafficTravelTimeInSeconds s of
                     Some h \<Rightarrow> h
                   | None \<Rightarrow> (case noTrafficTravelTimeInSeconds s of
                                Some n \<Rightarrow> n
                              | None \<Rightarrow> tt)) / 60)) \<and>
                (historicTrafficTravelTimeInSeconds s = None \<and> noTrafficTravelTimeInSeconds s = None
                   \<longrightarrow> normalMin r = trafficMin r \<and> delay (makeRow ts r sp w) = Minutes 0))"
  using assms
  by (simp add: fetchRoute_def fetchRoute_v2_def nullish_chain makeRow_fields roundMinutes_def Let_def
        split: option.splits)

theorem baseline_fallback_chain_witness:
  "data_routes (sampleData 1020 None None) =
     Some [Some \<lparr>travelTimeInSeconds = Some 1020, noTrafficTravelTimeInSeconds = None,
                 historicTrafficTravelTimeInSeconds = None\<rparr>] \<and>
   (\<exists>r. fetchRoute (Inr (sampleData 1020 None None)) = Inr r \<and>
        fetchRoute_v2 (Inr (sampleData 1020 None None)) = Inr r \<and>
        trafficMin r = Minutes 17 \<and> normalMin r = Minutes 17 \<and>
        delay (makeRow [] r None None) = Minutes 0)"
proof -
  have d: "data_routes (sampleData 1020 None None) =
     Some [Some \<lparr>travelTimeInSeconds = Some 1020, noTrafficTravelTimeInSeconds = None,
                 historicTrafficTravelTimeInSeconds = None\<rparr>]"
    by (simp add: sampleData_def)
  from baseline_fallback_chain[OF d, where ts = "[]" and sp = None and w = None and tt = 1020]
  show ?thesis using d by (auto simp add: Math_round_numeral)
qed

text \<open>
  Claim C6 (amended). Start with no log file for a route and a start-up that went through.
  After any cycles, the log of the route is the header followed by one line for each poll of
  that route that produced a reading and whose append went through, in order, and nothing
  else: never more lines than readings produced, and as many when no append failed. No line
  is the header; a restart leaves the file as it is; and a further cycle only appends. The
  array in memory is capped (C3), the file is not. A poll logs its row exactly when the body
  of its \<^verbatim>\<open>try\<close> runs to the end, and pushes its reading exactly when it produced one.
\<close>

theorem durable_log_rows:
  assumes "validRoute ci ri"
    and "fs0 (logPath ci ri) = None"
    and "ensureCsv disk fs0 = (fs, None)"
    and "s = runCycles envs (initialState fs)"
    and "ls = List.map_filter (\<lambda>env. loggedLine ci ri (routeEnvs env ci ri)) envs"
  shows "files s (logPath ci ri) = Some (csvHeader @ concat ls) \<and>
         length ls = length (filter (\<lambda>env. rowLogged (routeEnvs env ci ri)) envs) \<and>
         length ls \<le> length (filter (\<lambda>env. readingProduced (routeEnvs env ci ri)) envs) \<and>
         ((\<forall>env\<in>set envs. diskAppend (routeEnvs env ci ri) = None) \<longrightarrow>
            length ls = length (filter (\<lambda>env. readingProduced (routeEnvs env ci ri)) envs)) \<and>
         (\<forall>l\<in>set ls. l \<noteq> csvHeader \<and> (\<exists>row. l = csvLine ci ri row)) \<and>
         fst (ensureCsv disk' (files s)) (logPath ci ri) = files s (logPath ci ri) \<and>
         (\<exists>t. files (checkAll env s) (logPath ci ri) = Some (csvHeader @ concat ls @ t)) \<and>
         (shapeOk s' \<longrightarrow>
            rowLogged e = (snd (pollBody w' e ci ri s') = None) \<and>
            rowLogged e = (readingProduced e \<and> diskAppend e = None) \<and>
            readings (pollRoute w' e ci ri s') ! ci ! ri =
              (if readingProduced e
               then storeReading 1000 (readings s' ! ci ! ri)
                      (makeRow (isoNow e) (projr (fetchRoute (routeResponse e)))
                         (fetchSpeed (speedResponse e)) w')
               else readings s' ! ci ! ri))"
proof -
  have h: "fs (logPath ci ri) = Some csvHeader"
    using ensureCsv_created[OF assms(3,1)] assms(2) by simp
  have sh0: "shapeOk (initialState fs)" by (rule initialState_shapeOk)
  have f0: "files (initialState fs) (logPath ci ri) = Some csvHeader"
    using h by (simp add: initialState_def)
  have content: "files s (logPath ci ri) = Some (csvHeader @ concat ls)"
    unfolding assms(4,5) by (rule runCycles_files[OF sh0 assms(1) f0])
  have n: "length ls = length (filter (\<lambda>env. rowLogged (routeEnvs env ci ri)) envs)"
    unfolding assms(5) by (rule length_loggedLines)
  have le: "length ls \<le> length (filter (\<lambda>env. readingProduced (routeEnvs env ci ri)) envs)"
    unfolding n by (rule length_filter_rowLogged)
  have eq: "(\<forall>env\<in>set envs. diskAppend (routeEnvs env ci ri) = None) \<longrightarrow>
            length ls = length (filter (\<lambda>env. readingProduced (routeEnvs env ci ri)) envs)"
    unfolding n by (simp add: filter_rowLogged_all)
  have rows: "\<forall>l\<in>set ls. l \<noteq> csvHeader \<and> (\<exists>row. l = csvLine ci ri row)"
    unfolding assms(5) by (intro ballI loggedLines_rows)
  have restart: "fst (ensureCsv disk' (files s)) (logPath ci ri) = files s (logPath ci ri)"
    by (simp add: ensureCsv_def content ensureCsvLoop_keeps)
  have sh: "shapeOk s"
    unfolding assms(4) by (rule runCycles_shapeOk[OF sh0])
  have "files (checkAll env s) (logPath ci ri) =
        Some ((csvHeader @ concat ls) @
              (case loggedLine ci ri (routeEnvs env ci ri) of None \<Rightarrow> [] | Some l \<Rightarrow> l))"
    by (simp add: checkAll_files[OF sh assms(1)] content fileStep_Some)
  then have grow: "\<exists>t. files (checkAll env s) (logPath ci ri) = Some (csvHeader @ concat ls @ t)"
    by simp
  have ok: "shapeOk s' \<longrightarrow>
            rowLogged e = (snd (pollBody w' e ci ri s') = None) \<and>
            rowLogged e = (readingProduced e \<and> diskAppend e = None) \<and>
            readings (pollRoute w' e ci ri s') ! ci ! ri =
              (if readingProduced e
               then storeReading 1000 (readings s' ! ci ! ri)
                      (makeRow (isoNow e) (projr (fetchRoute (routeResponse e)))
                         (fetchSpeed (speedResponse e)) w')
               else readings s' ! ci ! ri)"
    using rowLogged_iff[of e]
    by (simp add: pollBody_succeeds[OF _ assms(1)] pollRoute_slot[OF _ assms(1)]
          slotStep_readingProduced)
  show ?thesis using content n le eq rows restart grow ok by blast
qed

theorem durable_log_rows_witness:
  \<open>validRoute 0 0 \<and> (Map.empty :: string \<Rightarrow> string option) (logPath 0 0) = None \<and>
   snd (ensureCsv (\<lambda>p. None) Map.empty) = None \<and>
   files (runCycles [sampleCycle okRoute, sampleCycle failedRoute, sampleCycle diskFullRoute]
           (initialState (fst (ensureCsv (\<lambda>p. None) Map.empty)))) ''log-metehan-s2n.csv'' =
     Some (csvHeader @
           ''"2026-02-27T09:21:00.000Z","Agios Dometios / Metehan","South to North",17,9,8,"MODERATE"'' @
           [CHR 0x0A]) \<and>
   length (filter (\<lambda>env. rowLogged (routeEnvs env 0 0))
             [sampleCycle okRoute, sampleCycle failedRoute, sampleCycle diskFullRoute]) = 1 \<and>
   length (filter (\<lambda>env. readingProduced (routeEnvs env 0 0))
             [sampleCycle okRoute, sampleCycle failedRoute, sampleCycle diskFullRoute]) = 2 \<and>
   diskAppend (routeEnvs (sampleCycle okRoute) 0 0) = None \<and>
   diskAppend (routeEnvs (sampleCycle failedRoute) 0 0) = None \<and>
   length (List.map_filter (\<lambda>env. loggedLine 0 0 (routeEnvs env 0 0))
             [sampleCycle okRoute, sampleCycle failedRoute]) =
     length (filter (\<lambda>env. readingProduced (routeEnvs env 0 0))
               [sampleCycle okRoute, sampleCycle failedRoute]) \<and>
   shapeOk (initialState Map.empty) \<and>
   snd (pollBody None okRoute 0 0 (initialState Map.empty)) = None \<and>
   readings (pollRoute None okRoute 0 0 (initialState Map.empty)) ! 0 ! 0 =
     [makeRow ''2026-02-27T09:21:00.000Z'' \<lparr>trafficMin = Minutes 17, normalMin = Minutes 9\<rparr> None None]\<close>
proof -
  let ?envs = "[sampleCycle okRoute, sampleCycle failedRoute, sampleCycle diskFullRoute]"
  have e: "snd (ensureCsv (\<lambda>p. None) Map.empty) = None"
    by (simp add: ensureCsv_def CROSSINGS_def writeFileSync_def)
  then have b: "ensureCsv (\<lambda>p. None) Map.empty = (fst (ensureCsv (\<lambda>p. None) Map.empty), None)"
    by (simp add: prod_eq_iff)
  have f: "(Map.empty :: string \<Rightarrow> string option) (logPath 0 0) = None" by simp
  have p: "logPath 0 0 = ''log-metehan-s2n.csv''"
    by (simp add: logPath_def CROSSINGS_def)
  have ok: "isoNow okRoute = ''2026-02-27T09:21:00.000Z''" "diskAppend okRoute = None"
    "diskAppend diskFullRoute \<noteq> None" "diskAppend failedRoute = None"
    "fetchSpeed (speedResponse okRoute) = None"
    by (simp_all add: okRoute_def diskFullRoute_def failedRoute_def fetchSpeed_def)
  have ls: \<open>List.map_filter (\<lambda>env. loggedLine 0 0 (routeEnvs env 0 0)) ?envs =
            [''"2026-02-27T09:21:00.000Z","Agios Dometios / Metehan","South to North",17,9,8,"MODERATE"'' @ [CHR 0x0A]]\<close>
    using ok
    by (auto simp add: sampleCycle_envs loggedLine_def fetchRoute_okRoute fetchRoute_failedRoute
          fetchRoute_diskFullRoute csvLine_sample)
  have ps: "rowLogged okRoute" "\<not> rowLogged failedRoute" "\<not> rowLogged diskFullRoute"
    "readingProduced okRoute" "\<not> readingProduced failedRoute" "readingProduced diskFullRoute"
    using ok
    by (simp_all add: rowLogged_def readingProduced_def fetchRoute_okRoute fetchRoute_failedRoute
          fetchRoute_diskFullRoute)
  have s0: "readings (initialState Map.empty) ! 0 ! 0 = []"
    by (rule initialState_readings[OF validRoute_0_0])
  have all: "\<forall>env\<in>set [sampleCycle okRoute, sampleCycle failedRoute]. diskAppend (routeEnvs env 0 0) = None"
    using ok by (simp add: sampleCycle_envs)
  note one = durable_log_rows[where envs = ?envs and disk' = "\<lambda>p. None" and env = "sampleCycle okRoute"
         and s' = "initialState Map.empty" and e = okRoute and w' = None,
         OF validRoute_0_0 f b refl refl, unfolded ls p]
  note two = durable_log_rows[where envs = "[sampleCycle okRoute, sampleCycle failedRoute]"
         and disk' = "\<lambda>p. None" and env = "sampleCycle okRoute"
         and s' = "initialState Map.empty" and e = okRoute and w' = None,
         OF validRoute_0_0 f b refl refl]
  from two all have t: "length (List.map_filter (\<lambda>env. loggedLine 0 0 (routeEnvs env 0 0))
             [sampleCycle okRoute, sampleCycle failedRoute]) =
     length (filter (\<lambda>env. readingProduced (routeEnvs env 0 0))
               [sampleCycle okRoute, sampleCycle failedRoute])"
    by blast
  from one have o: \<open>files (runCycles ?envs (initialState (fst (ensureCsv (\<lambda>p. None) Map.empty))))
                      ''log-metehan-s2n.csv'' =
     Some (csvHeader @
           ''"2026-02-27T09:21:00.000Z","Agios Dometios / Metehan","South to North",17,9,8,"MODERATE"'' @
           [CHR 0x0A])\<close>
    "snd (pollBody None okRoute 0 0 (initialState Map.empty)) = None"
    "readings (pollRoute None okRoute 0 0 (initialState Map.empty)) ! 0 ! 0 =
       [makeRow ''2026-02-27T09:21:00.000Z'' \<lparr>trafficMin = Minutes 17, normalMin = Minutes 9\<rparr> None None]"
    using initialState_shapeOk[of Map.empty] ps
    by (simp_all add: s0 ok fetchRoute_okRoute storeReading_def)
  show ?thesis
    using validRoute_0_0 e initialState_shapeOk[of Map.empty] all t o
    by (intro conjI) (simp_all add: sampleCycle_envs ps)
qed

text \<open>
  The claim as the specification words it (N successful polls, each of which produced a
  reading, leave N data rows) fails: from a fresh start, three cycles in which the first
  route meets the good answer, a failed request and a full disk produce two readings, both
  in memory, and the log holds the header and one row.
\<close>

theorem durable_log_counterexample:
  \<open>readingProduced okRoute \<and> \<not> readingProduced failedRoute \<and> readingProduced diskFullRoute \<and>
   length (readings threeCycles ! 0 ! 0) = 2 \<and>
   files threeCycles ''log-metehan-s2n.csv'' =
     Some (csvHeader @
           ''"2026-02-27T09:21:00.000Z","Agios Dometios / Metehan","South to North",17,9,8,"MODERATE"'' @
           [CHR 0x0A])\<close>
proof -
  have ok: "isoNow okRoute = ''2026-02-27T09:21:00.000Z''" "diskAppend okRoute = None"
    "diskAppend diskFullRoute \<noteq> None"
    by (simp_all add: okRoute_def diskFullRoute_def)
  have ps: "readingProduced okRoute" "\<not> readingProduced failedRoute" "readingProduced diskFullRoute"
    by (simp_all add: readingProduced_def fetchRoute_okRoute fetchRoute_failedRoute
          fetchRoute_diskFullRoute)
  have p: "logPath 0 0 = ''log-metehan-s2n.csv''"
    by (simp add: logPath_def CROSSINGS_def)
  let ?s1 = "checkAll (sampleCycle okRoute) freshStart"
  let ?s2 = "checkAll (sampleCycle failedRoute) ?s1"
  let ?s3 = "checkAll (sampleCycle diskFullRoute) ?s2"
  have sh: "shapeOk ?s1" "shapeOk ?s2"
    by (simp_all add: checkAll_shapeOk freshStart_shapeOk)
  have t: "threeCycles = ?s3"
    by (simp add: threeCycles_def runCycles_def)
  have l1: "length (readings ?s1 ! 0 ! 0) = 1"
    by (simp add: checkAll_readings[OF freshStart_shapeOk validRoute_0_0] sampleCycle_envs
          freshStart_readings[OF validRoute_0_0] length_slotStep ps)
  have l2: "length (readings ?s2 ! 0 ! 0) = 1"
    by (simp add: checkAll_readings[OF sh(1) validRoute_0_0] sampleCycle_envs l1 length_slotStep ps)
  have l3: "length (readings ?s3 ! 0 ! 0) = 2"
    by (simp add: checkAll_readings[OF sh(2) validRoute_0_0] sampleCycle_envs l2 length_slotStep ps)
  have ls: \<open>List.map_filter (\<lambda>env. loggedLine 0 0 (routeEnvs env 0 0))
              [sampleCycle okRoute, sampleCycle failedRoute, sampleCycle diskFullRoute] =
            [''"2026-02-27T09:21:00.000Z","Agios Dometios / Metehan","South to North",17,9,8,"MODERATE"'' @ [CHR 0x0A]]\<close>
    using ok
    by (auto simp add: sampleCycle_envs loggedLine_def fetchRoute_okRoute fetchRoute_failedRoute
          fetchRoute_diskFullRoute csvLine_sample)
  have "files threeCycles (logPath 0 0) =
          Some (csvHeader @ concat (List.map_filter (\<lambda>env. loggedLine 0 0 (routeEnvs env 0 0))
                  [sampleCycle okRoute, sampleCycle failedRoute, sampleCycle diskFullRoute]))"
    unfolding threeCycles_def
    by (rule runCycles_files[OF freshStart_shapeOk validRoute_0_0 freshStart_files[OF validRoute_0_0]])
  then have \<open>files threeCycles ''log-metehan-s2n.csv'' =
          Some (csvHeader @ concat
            [''"2026-02-27T09:21:00.000Z","Agios Dometios / Metehan","South to North",17,9,8,"MODERATE"'' @ [CHR 0x0A]])\<close>
    by (simp only: ls p)
  then show ?thesis
    using ps l3 by (simp add: t[symmetric])
qed

text \<open>
  Claim C7. A weather fetch that misses the cache and gets an answer stores the snapshot
  and sends one request. A second fetch less than 10 minutes after the store returns that
  same snapshot and leaves the state as it is, whatever the provider would have answered:
  one request in all. A fetch 10 minutes or more after the store sends a second request.
\<close>

theorem weather_cache_ttl:
  assumes "weatherCache s = None \<or> 10 * 60 * 1000 \<le> t1 - weatherLastFetch s"
    and "current d = Some c"
    and "fetchWeather t1 (Inr d) t1' s = (r1, s1)"
  shows "\<exists>w. r1 = Some w \<and> weatherCache s1 = Some w \<and> weatherLastFetch s1 = t1' \<and>
             requests s1 = requests s @ [WeatherRequest] \<and>
             (t2 - t1' < 10 * 60 * 1000 \<longrightarrow> fetchWeather t2 resp t2' s1 = (Some w, s1)) \<and>
             (10 * 60 * 1000 \<le> t3 - t1' \<longrightarrow>
                requests (snd (fetchWeather t3 resp t3' s1)) = requests s @ [WeatherRequest, WeatherRequest])"
  using assms
  by (auto simp add: fetchWeather_def Let_def split: sum.splits option.splits)

theorem weather_cache_ttl_witness:
  "\<exists>w s1. fetchWeather 1000 (Inr sampleWeather) 1200 (initialState Map.empty) = (Some w, s1) \<and>
      current sampleWeather \<noteq> None \<and> weatherCache (initialState Map.empty) = None \<and>
      (600000::int) - 1200 < 10 * 60 * 1000 \<and> (10 * 60 * 1000::int) \<le> 601200 - 1200 \<and>
      requests s1 = [WeatherRequest] \<and>
      fetchWeather 600000 (Inl (Error ''timeout'')) 600020 s1 = (Some w, s1) \<and>
      requests (snd (fetchWeather 601200 (Inl (Error ''timeout'')) 601230 s1)) = [WeatherRequest, WeatherRequest]"
proof -
  obtain r1 s1 where f: "fetchWeather 1000 (Inr sampleWeather) 1200 (initialState Map.empty) = (r1, s1)"
    by (cases "fetchWeather 1000 (Inr sampleWeather) 1200 (initialState Map.empty)")
  have m: "weatherCache (initialState Map.empty) = None \<or>
           10 * 60 * 1000 \<le> 1000 - weatherLastFetch (initialState Map.empty)"
    by (simp add: initialState_def)
  have c: "current sampleWeather = Some \<lparr>temperature_2m = 21, precipitation = 0, weather_code = 2,
                                     wind_speed_10m = 12\<rparr>"
    by (simp add: sampleWeather_def)
  have r: "requests (initialState Map.empty) = []" "weatherCache (initialState Map.empty) = None"
    by (simp_all add: initialState_def)
  from weather_cache_ttl[OF m c f, where ?t2.0 = 600000 and ?t3.0 = 601200
        and resp = "Inl (Error ''timeout'')" and t2' = 600020 and t3' = 601230]
  show ?thesis using f c r by auto
qed

text \<open>
  Claim C8. In a cycle run in any state reached from start-up: when the routing call of a
  route succeeds and the append to its log throws, the array of the route still gains the
  new reading, which is its latest; the log file is unchanged and the error is printed.
\<close>

theorem persistence_failure_keeps_reading:
  assumes "s = runCycles envs (initialState fs)"
    and "validRoute ci ri"
    and "fetchRoute (routeResponse (routeEnvs env ci ri)) = Inr result"
    and "diskAppend (routeEnvs env ci ri) = Some e"
  shows "readings (checkAll env s) ! ci ! ri =
           storeReading 1000 (readings s ! ci ! ri)
             (makeRow (isoNow (routeEnvs env ci ri)) result (fetchSpeed (speedResponse (routeEnvs env ci ri)))
                (fst (cycleWeather env s))) \<and>
         latest (readings (checkAll env s) ! ci ! ri) =
           Some (makeRow (isoNow (routeEnvs env ci ri)) result (fetchSpeed (speedResponse (routeEnvs env ci ri)))
                   (fst (cycleWeather env s))) \<and>
         files (checkAll env s) (logPath ci ri) = files s (logPath ci ri) \<and>
         ErrRoute (''['' @ shortName (CROSSINGS ! ci) @ ''] '' @ name (routes (CROSSINGS ! ci) ! ri) @
                   '': '' @ message e) \<in> set (console (checkAll env s))"
proof -
  have sh: "shapeOk s"
    using assms(1) by (simp add: runCycles_shapeOk initialState_shapeOk)
  have b: "readings (checkAll env s) ! ci ! ri =
           storeReading 1000 (readings s ! ci ! ri)
             (makeRow (isoNow (routeEnvs env ci ri)) result (fetchSpeed (speedResponse (routeEnvs env ci ri)))
                (fst (cycleWeather env s)))"
    by (simp add: checkAll_readings[OF sh assms(2)] slotStep_def assms(3))
  have f: "files (checkAll env s) (logPath ci ri) = files s (logPath ci ri)"
    by (simp add: checkAll_files[OF sh assms(2)] fileStep_def assms(3,4))
  have c: "ErrRoute (''['' @ shortName (CROSSINGS ! ci) @ ''] '' @ name (routes (CROSSINGS ! ci) ! ri) @
                   '': '' @ message e) \<in> set (console (checkAll env s))"
    using errLine_in_console[OF sh assms(2), of env] by (simp add: pollLine_def assms(3,4))
  show ?thesis
    using f c by (simp add: b latest_storeReading)
qed

theorem persistence_failure_keeps_reading_witness:
  "validRoute 0 0 \<and>
   fetchRoute (routeResponse (routeEnvs (sampleCycle diskFullRoute) 0 0)) = Inr \<lparr>trafficMin = Minutes 17, normalMin = Minutes 9\<rparr> \<and>
   diskAppend (routeEnvs (sampleCycle diskFullRoute) 0 0) = Some (Error ''ENOSPC: no space left on device'') \<and>
   readings (checkAll (sampleCycle diskFullRoute) (runCycles [] (initialState Map.empty))) ! 0 ! 0 =
     [makeRow ''2026-02-27T09:21:00.000Z'' \<lparr>trafficMin = Minutes 17, normalMin = Minutes 9\<rparr> None None] \<and>
   files (checkAll (sampleCycle diskFullRoute) (runCycles [] (initialState Map.empty))) ''log-metehan-s2n.csv'' = None \<and>
   ErrRoute ''[Metehan] South to North: ENOSPC: no space left on device''
     \<in> set (console (checkAll (sampleCycle diskFullRoute) (runCycles [] (initialState Map.empty))))"
proof -
  have a: "fetchRoute (routeResponse (routeEnvs (sampleCycle diskFullRoute) 0 0)) = Inr \<lparr>trafficMin = Minutes 17, normalMin = Minutes 9\<rparr>"
    using fetchRoute_okRoute by (simp add: sampleCycle_envs diskFullRoute_def)
  have d: "diskAppend (routeEnvs (sampleCycle diskFullRoute) 0 0) = Some (Error ''ENOSPC: no space left on device'')"
    by (simp add: sampleCycle_envs diskFullRoute_def)
  have w: "fst (cycleWeather (sampleCycle diskFullRoute) (runCycles [] (initialState Map.empty))) = None"
    by (simp add: cycleWeather_def fetchWeather_def sampleCycle_def initialState_def runCycles_def)
  have s0: "readings (runCycles [] (initialState Map.empty)) ! 0 ! 0 = []"
    "files (runCycles [] (initialState Map.empty)) p = None" for p
    by (simp_all add: runCycles_def initialState_readings[OF validRoute_0_0]) (simp add: initialState_def)
  have names: "logPath 0 0 = ''log-metehan-s2n.csv''" "shortName (CROSSINGS ! 0) = ''Metehan''"
    "name (routes (CROSSINGS ! 0) ! 0) = ''South to North''"
    by (simp_all add: logPath_def CROSSINGS_def)
  have ok: "isoNow diskFullRoute = ''2026-02-27T09:21:00.000Z''" "fetchSpeed (speedResponse diskFullRoute) = None"
    by (simp_all add: okRoute_def diskFullRoute_def fetchSpeed_def)
  from persistence_failure_keeps_reading[where envs = "[]" and fs = Map.empty, OF refl validRoute_0_0 a d]
  show ?thesis
    using a d validRoute_0_0
    by (simp add: s0 names w sampleCycle_envs ok storeReading_def)
qed

text \<open>
  Claim C9. The worst level the main page shows for a crossing is the greater of the
  levels of the latest readings of its two routes in the order LOW < MODERATE < HIGH
  (and nothing while either route has no reading yet); LOW with HIGH gives HIGH, and LOW
  with MODERATE gives MODERATE.
\<close>

theorem worst_is_maximum:
  "worst s ci =
     (case (latest (readings s ! ci ! 0), latest (readings s ! ci ! 1)) of
        (Some r0, Some r1) \<Rightarrow>
          Some (if severity_le (level r0) (level r1) then level r1 else level r0)
      | _ \<Rightarrow> None) \<and>
   worstOf (Some (r\<lparr>level := LOW\<rparr>)) (Some (r'\<lparr>level := HIGH\<rparr>)) = Some HIGH \<and>
   worstOf (Some (r\<lparr>level := LOW\<rparr>)) (Some (r'\<lparr>level := MODERATE\<rparr>)) = Some MODERATE"
proof -
  have pair: "worstOf (Some a) (Some b) =
              Some (if severity_le (level a) (level b) then level b else level a)" for a b
    by (cases "level a"; cases "level b")
       (simp_all add: worstOf_def levels_def elementAt_def severity_le_def)
  have none: "worstOf None l = None" "worstOf l None = None" for l
    by (simp_all add: worstOf_def split: option.splits)
  show ?thesis
    by (simp add: worst_def pair none severity_le_def split: option.splits)
qed

text \<open>
  Claim C10, as amended. For every flow response that has \<^verbatim>\<open>flowSegmentData\<close>,
  \<open>fetchSpeed\<close> returns a sample, and its \<open>speedPct\<close> is \<^verbatim>\<open>Math.round\<close> of the double
  \<^verbatim>\<open>(currentSpeed / freeFlowSpeed) * 100\<close>, the quotient and the product each rounded to
  a double. There is no zero guard: with a free-flow speed of zero the \<open>speedPct\<close> is an
  infinity or NaN, and the sample is returned all the same; with finite speeds and a
  free-flow speed other than zero it is never NaN. (As the claim is written, with
  \<open>speedPct\<close> equal to the exactly rounded \<open>100 * currentSpeed / freeFlowSpeed\<close>, it fails:
  see the theorem after the witness.)
\<close>

theorem fetchSpeed_no_zero_guard:
  assumes "flowSegmentData data = Some fd"
  shows "\<exists>pct. fetchSpeed (Inr data) =
               Some \<lparr>currentSpeed = Math_round_num (currentSpeed fd),
                     freeFlowSpeed = Math_round_num (freeFlowSpeed fd), speedPct = pct\<rparr> \<and>
             pct = Math_round_num
                     (numMultiply (numDivide (currentSpeed fd) (freeFlowSpeed fd)) (Finite 100)) \<and>
             (isZero (freeFlowSpeed fd) \<longrightarrow> pct = PosInfinity \<or> pct = NegInfinity \<or> pct = NaN) \<and>
             (isFiniteNumber (currentSpeed fd) \<and> isFiniteNumber (freeFlowSpeed fd) \<and>
              \<not> isZero (freeFlowSpeed fd) \<longrightarrow> pct \<noteq> NaN)"
proof -
  let ?q = "numDivide (currentSpeed fd) (freeFlowSpeed fd)"
  have d: "isZero (freeFlowSpeed fd) \<Longrightarrow> ?q = NaN \<or> isInfinity ?q"
    by (auto simp add: numDivide_def isInfinity_def signedInfinity_def isZero_def)
  have m: "numMultiply NaN (Finite 100) = NaN"
    "isInfinity x \<Longrightarrow> isInfinity (numMultiply x (Finite 100))" for x
    by (auto simp add: numMultiply_def isInfinity_def isZero_def signedInfinity_def)
  have r: "Math_round_num NaN = NaN" "isInfinity x \<Longrightarrow> Math_round_num x = x" for x
    by (auto simp add: Math_round_num_def isInfinity_def)
  have z: "isZero (freeFlowSpeed fd) \<Longrightarrow>
           Math_round_num (numMultiply ?q (Finite 100)) = NaN \<or>
           isInfinity (Math_round_num (numMultiply ?q (Finite 100)))"
    using d m r by metis
  have q: "?q \<noteq> NaN"
    if "isFiniteNumber (currentSpeed fd)" "isFiniteNumber (freeFlowSpeed fd)" "\<not> isZero (freeFlowSpeed fd)"
    using that toDouble_not_NaN
    by (cases "currentSpeed fd"; cases "freeFlowSpeed fd")
       (simp_all add: numDivide_def isInfinity_def isZero_def signedZero_def)
  have p: "numMultiply x (Finite 100) \<noteq> NaN" if "x \<noteq> NaN" for x
    using that toDouble_not_NaN
    by (simp add: numMultiply_def isInfinity_def isZero_def signedZero_def signedInfinity_def)
  have n: "Math_round_num x \<noteq> NaN" if "x \<noteq> NaN" for x
    using that by (cases x) (simp_all add: Math_round_num_def)
  show ?thesis
    using assms z q p n by (auto simp add: fetchSpeed_def isInfinity_def)
qed

theorem fetchSpeed_no_zero_guard_witness:
  "flowSegmentData zeroFreeFlow = Some \<lparr>currentSpeed = Finite 50, freeFlowSpeed = Finite 0\<rparr> \<and>
   isZero (Finite 0) \<and>
   fetchSpeed (Inr zeroFreeFlow) =
     Some \<lparr>currentSpeed = Finite 50, freeFlowSpeed = Finite 0, speedPct = PosInfinity\<rparr> \<and>
   flowSegmentData slowTraffic = Some \<lparr>currentSpeed = Finite 23, freeFlowSpeed = Finite 40\<rparr> \<and>
   isFiniteNumber (Finite 23) \<and> isFiniteNumber (Finite 40) \<and> \<not> isZero (Finite 40) \<and>
   (\<exists>pct. fetchSpeed (Inr slowTraffic) =
            Some \<lparr>currentSpeed = Finite 23, freeFlowSpeed = Finite 40, speedPct = pct\<rparr> \<and>
          pct \<noteq> NaN)"
proof -
  have f: "flowSegmentData zeroFreeFlow = Some \<lparr>currentSpeed = Finite 50, freeFlowSpeed = Finite 0\<rparr>"
    by (simp add: zeroFreeFlow_def)
  have g: "flowSegmentData slowTraffic = Some \<lparr>currentSpeed = Finite 23, freeFlowSpeed = Finite 40\<rparr>"
    by (simp add: slowTraffic_def)
  have p: "Math_round_num (numMultiply (numDivide (Finite 50) (Finite 0)) (Finite 100)) = PosInfinity"
    by (simp add: numDivide_def numMultiply_def isZero_def isInfinity_def signedInfinity_def
          Math_round_num_def)
  have r: "Math_round_num (Finite 50) = Finite 50" "Math_round_num (Finite 0) = Finite 0"
    "Math_round_num (Finite 23) = Finite 23" "Math_round_num (Finite 40) = Finite 40"
    using Math_round_of_int[of 0] Math_round_numeral by (simp_all add: Math_round_num_def)
  have z: "isZero (Finite 0)" "\<not> isZero (Finite 40)"
    by (simp_all add: isZero_def)
  from fetchSpeed_no_zero_guard[OF f] fetchSpeed_no_zero_guard[OF g]
  show ?thesis using f g z by (auto simp add: p r)
qed

text \<open>
  At a current speed of 23 and a free-flow speed of 40 the exactly rounded percentage is
  58 (\<open>100 * 23 / 40\<close> is 57.5), and \<open>fetchSpeed\<close> returns 57: the double nearest to
  23/40 is below 0.575, and its product with 100 rounds to a double below 57.5.
\<close>

theorem speedPct_counterexample:
  "fetchSpeed (Inr slowTraffic) =
     Some \<lparr>currentSpeed = Finite 23, freeFlowSpeed = Finite 40, speedPct = Finite 57\<rparr> \<and>
   Math_round (100 * 23 / 40) = 58"
proof -
  have d: "numDivide (Finite 23) (Finite 40) = Finite (5179139571476070 / 2 ^ 53)"
    using toDouble_23_40 by (simp add: numDivide_def isInfinity_def isZero_def)
  have m: "numMultiply (Finite (5179139571476070 / 2 ^ 53)) (Finite 100) = Finite (8092405580431359 / 2 ^ 47)"
    using toDouble_times_100 by (simp add: numMultiply_def isInfinity_def isZero_def)
  have e: "Math_round (100 * 23 / 40) = 58"
    by (simp add: Math_round_def floor_rat_numeral)
  have "fetchSpeed (Inr slowTraffic) =
          Some \<lparr>currentSpeed = Finite 23, freeFlowSpeed = Finite 40,
                speedPct = Math_round_num (numMultiply (numDivide (Finite 23) (Finite 40)) (Finite 100))\<rparr>"
    by (simp add: fetchSpeed_def slowTraffic_def Math_round_num_numeral)
  then have "fetchSpeed (Inr slowTraffic) =
          Some \<lparr>currentSpeed = Finite 23, freeFlowSpeed = Finite 40, speedPct = Finite 57\<rparr>"
    by (simp only: d m Math_round_num_57)
  then show ?thesis using e by (rule conjI)
qed


end
